theory Spec2Isabelle
  imports Complex_Main "HOL-Library.Sublist" "HOL-Library.Log_Nat"
begin

section \<open>JavaScript values used by the two front-end modules\<close>

text \<open>
  A JavaScript string is a sequence of UTF-16 code units, and \<open>.length\<close> counts code
  units. A code unit is modelled as a natural number, a string as a list of them.
  \<open>ascii\<close> embeds the ASCII literals of the source.
\<close>

type_synonym jsstring = "nat list"

definition ascii :: "string \<Rightarrow> jsstring" where
  "ascii s = map of_char s"

text \<open>
  A property that may be missing (\<open>undefined\<close>) or \<open>null\<close> is an option.
  \<open>truthy\<close> is JavaScript's truthiness of such a string property: \<open>undefined\<close>,
  \<open>null\<close> and the empty string are falsy.
\<close>

fun truthy :: "jsstring option \<Rightarrow> bool" where
  "truthy None = False"
| "truthy (Some s) = (s \<noteq> [])"

text \<open>Number-to-string of a non-negative integer (decimal digits).\<close>

fun digits :: "nat \<Rightarrow> jsstring" where
  "digits n = (if n < 10 then [48 + n] else digits (n div 10) @ [48 + n mod 10])"

declare digits.simps [simp del]

text \<open>A section identifier is a string or a number; a template literal prints either.\<close>

datatype section_id = SectionString jsstring | SectionNumber nat

fun section_to_string :: "section_id \<Rightarrow> jsstring" where
  "section_to_string (SectionString s) = s"
| "section_to_string (SectionNumber n) = digits n"

section \<open>Timetable viewer (prettier.js): data model\<close>

record CellData =
  code :: "jsstring option"
  name :: "jsstring option"
  location :: "jsstring option"
  lecturer :: "jsstring option"

record TimetableData =
  section_id :: section_id
  time_slots :: "nat list"
  slot_times :: "nat \<rightharpoonup> jsstring"
  timetable :: "jsstring \<rightharpoonup> (nat \<rightharpoonup> CellData)"

definition DAYS :: "jsstring list" where
  "DAYS = [ascii ''MON'', ascii ''TUE'', ascii ''WED'', ascii ''THU'', ascii ''FRI'']"

subsection \<open>Break-slot classifier (renderTimetable, lines 194-205)\<close>

text \<open>\<open>data.timetable[day] || {}\<close>: a missing day is an empty mapping.\<close>

definition dayData_of :: "TimetableData \<Rightarrow> jsstring \<Rightarrow> (nat \<rightharpoonup> CellData)" where
  "dayData_of data day = (case timetable data day of None \<Rightarrow> Map.empty | Some d \<Rightarrow> d)"

text \<open>\<open>dayData[6] && dayData[6].code\<close>, as a truth value.\<close>

definition has_code :: "(nat \<rightharpoonup> CellData) \<Rightarrow> nat \<Rightarrow> bool" where
  "has_code dayData slot = (case dayData slot of None \<Rightarrow> False | Some cell \<Rightarrow> truthy (code cell))"

text \<open>\<open>dayData[6] && dayData[6].code && dayData[6].code.length > 1\<close>.\<close>

definition has_long_code :: "(nat \<rightharpoonup> CellData) \<Rightarrow> nat \<Rightarrow> bool" where
  "has_long_code dayData slot =
     (case dayData slot of
        None \<Rightarrow> False
      | Some cell \<Rightarrow> (case code cell of None \<Rightarrow> False | Some c \<Rightarrow> c \<noteq> [] \<and> length c > 1))"

definition daysWithBreakData :: "TimetableData \<Rightarrow> jsstring list" where
  "daysWithBreakData data = filter (\<lambda>day. has_code (dayData_of data day) 6) DAYS"

definition hasLongCodes :: "TimetableData \<Rightarrow> bool" where
  "hasLongCodes data = list_ex (\<lambda>day. has_long_code (dayData_of data day) 6) DAYS"

definition hasBreakClasses :: "TimetableData \<Rightarrow> bool" where
  "hasBreakClasses data =
     (hasLongCodes data \<or>
      (length (daysWithBreakData data) > 0 \<and> length (daysWithBreakData data) < 4))"

text \<open>
  The classifier as the specification words it: the code of a day's slot-6 entry (empty
  when the day, the entry or the code is absent), and the number of days on which it is
  not empty.
\<close>

definition spec_slot6_code :: "TimetableData \<Rightarrow> jsstring \<Rightarrow> jsstring" where
  "spec_slot6_code data day =
     (case timetable data day of
        None \<Rightarrow> []
      | Some d \<Rightarrow> (case d 6 of
                    None \<Rightarrow> []
                  | Some cell \<Rightarrow> (case code cell of None \<Rightarrow> [] | Some c \<Rightarrow> c)))"

definition spec_days_with_data :: "TimetableData \<Rightarrow> nat" where
  "spec_days_with_data data = card {day \<in> set DAYS. spec_slot6_code data day \<noteq> []}"

definition spec_some_long_code :: "TimetableData \<Rightarrow> bool" where
  "spec_some_long_code data = (\<exists>day \<in> set DAYS. length (spec_slot6_code data day) > 1)"

text \<open>Example timetables: slot 6 filled with the given code on the given days.\<close>

definition cell_with_code :: "jsstring \<Rightarrow> CellData" where
  "cell_with_code c = \<lparr>code = Some c, name = Some (ascii ''Name''), location = None,
     lecturer = Some []\<rparr>"

definition example_data :: "nat list \<Rightarrow> (jsstring \<times> jsstring) list \<Rightarrow> TimetableData" where
  "example_data slots entries =
     \<lparr>section_id = SectionNumber 3, time_slots = slots,
      slot_times = [6 \<mapsto> ascii ''12:00''],
      timetable = (\<lambda>day. map_option (\<lambda>c. [6 \<mapsto> cell_with_code c]) (map_of entries day))\<rparr>"

definition example_none :: TimetableData where
  "example_none = example_data [1, 6] []"

definition example_two :: TimetableData where
  "example_two = example_data [1, 6] [(ascii ''MON'', ascii ''A''), (ascii ''WED'', ascii ''B'')]"

definition example_five :: TimetableData where
  "example_five = example_data [1, 6]
     [(ascii ''MON'', ascii ''B''), (ascii ''TUE'', ascii ''R''), (ascii ''WED'', ascii ''E''),
      (ascii ''THU'', ascii ''A''), (ascii ''FRI'', ascii ''K'')]"

definition example_long :: TimetableData where
  "example_long = example_data [1, 6]
     [(ascii ''MON'', ascii ''B''), (ascii ''TUE'', ascii ''R''), (ascii ''WED'', ascii ''CS101''),
      (ascii ''THU'', ascii ''A''), (ascii ''FRI'', ascii ''K'')]"

subsection \<open>Colour assignment (getCourseColor, lines 12-32)\<close>

text \<open>
  The module-level \<open>courseColors\<close> map and \<open>colorIndex\<close> counter are the state
  that \<open>getCourseColor\<close> reads and updates.
\<close>

record ColorState =
  courseColors :: "jsstring \<rightharpoonup> jsstring"
  colorIndex :: nat

definition COLORS :: "jsstring list" where
  "COLORS = [ascii ''var(--course-1)'', ascii ''var(--course-2)'', ascii ''var(--course-3)'',
     ascii ''var(--course-4)'', ascii ''var(--course-5)'', ascii ''var(--course-6)'',
     ascii ''var(--course-7)'', ascii ''var(--course-8)'']"

text \<open>
  \<open>courseColors.get\<close> of a missing key is \<open>undefined\<close>, which a template literal
  prints as the word; the branch is kept although the key is always present there.
\<close>

definition getCourseColor :: "jsstring \<Rightarrow> ColorState \<Rightarrow> jsstring \<times> ColorState" where
  "getCourseColor courseCode st =
     (let st' = (if courseColors st courseCode = None
                 then st\<lparr>courseColors := (courseColors st)(courseCode \<mapsto>
                            COLORS ! (colorIndex st mod length COLORS)),
                         colorIndex := colorIndex st + 1\<rparr>
                 else st)
      in (case courseColors st' courseCode of
            Some color \<Rightarrow> (color, st')
          | None \<Rightarrow> (ascii ''undefined'', st')))"

text \<open>\<open>courseColors.clear(); colorIndex = 0\<close> at the start of renderTimetable.\<close>

definition reset_colors :: ColorState where
  "reset_colors = \<lparr>courseColors = Map.empty, colorIndex = 0\<rparr>"

subsection \<open>escapeHtml (lines 277-282)\<close>

text \<open>
  \<open>div.textContent = text; return div.innerHTML\<close> serialises one text node. The HTML
  standard's serialisation of a text node replaces \<open>&\<close> by \<open>&amp;\<close>, U+00A0 by
  \<open>&nbsp;\<close>, \<open><\<close> by \<open>&lt;\<close> and \<open>>\<close> by \<open>&gt;\<close>, and nothing else.
\<close>

definition escape_unit :: "nat \<Rightarrow> jsstring" where
  "escape_unit u =
     (if u = 38 then ascii ''&amp;''
      else if u = 160 then ascii ''&nbsp;''
      else if u = 60 then ascii ''&lt;''
      else if u = 62 then ascii ''&gt;''
      else [u])"

definition escapeHtml :: "jsstring option \<Rightarrow> jsstring" where
  "escapeHtml text_arg =
     (if \<not> truthy text_arg then []
      else (case text_arg of None \<Rightarrow> [] | Some t \<Rightarrow> concat (map escape_unit t)))"

subsection \<open>renderTimetable (lines 175-275)\<close>

text \<open>
  The function resets the colour state, sets the title, builds the table text and
  shows the container. (\<open>hasBreak = slots.includes(6)\<close> is computed and never read.)
\<close>

text \<open>\<open>slotTimes[slot] || ''\<close>.\<close>

definition slot_time :: "(nat \<rightharpoonup> jsstring) \<Rightarrow> nat \<Rightarrow> jsstring" where
  "slot_time slotTimes slot =
     (if truthy (slotTimes slot) then (case slotTimes slot of Some t \<Rightarrow> t | None \<Rightarrow> []) else [])"

text \<open>The template literals, line by line as the source writes them.\<close>

definition break_header :: "jsstring \<Rightarrow> jsstring" where
  \<open>break_header time =
     ascii ''<th class="break-header">\<newline>'' @
     ascii ''                <span>BREAK</span>\<newline>'' @
     ascii ''                <span class="time-slot">'' @ time @ ascii ''</span>\<newline>'' @
     ascii ''            </th>''\<close>

definition slot_header :: "nat \<Rightarrow> jsstring \<Rightarrow> jsstring" where
  \<open>slot_header slot time =
     ascii ''<th>\<newline>'' @
     ascii ''                <span>'' @ digits slot @ ascii ''</span>\<newline>'' @
     ascii ''                <span class="time-slot">'' @ time @ ascii ''</span>\<newline>'' @
     ascii ''            </th>''\<close>

definition header_cell :: "bool \<Rightarrow> (nat \<rightharpoonup> jsstring) \<Rightarrow> nat \<Rightarrow> jsstring" where
  "header_cell has slotTimes slot =
     (let time = slot_time slotTimes slot
      in if slot = 6 \<and> \<not> has then break_header time else slot_header slot time)"

definition break_cell :: jsstring where
  \<open>break_cell =
     ascii ''<td class="break-cell" rowspan="5">\<newline>'' @
     ascii ''                        <div class="break-content">\<newline>'' @
     ascii ''                            <span>B</span>\<newline>'' @
     ascii ''                            <span>R</span>\<newline>'' @
     ascii ''                            <span>E</span>\<newline>'' @
     ascii ''                            <span>A</span>\<newline>'' @
     ascii ''                            <span>K</span>\<newline>'' @
     ascii ''                        </div>\<newline>'' @
     ascii ''                    </td>''\<close>

definition course_cell :: "jsstring \<Rightarrow> CellData \<Rightarrow> jsstring" where
  \<open>course_cell color cellData =
     ascii ''<td>\<newline>'' @
     ascii ''                        <div class="course-cell" style="background: '' @ color @
       ascii '';">\<newline>'' @
     ascii ''                            <div class="course-name">'' @ escapeHtml (name cellData) @
       ascii ''</div>\<newline>'' @
     ascii ''                            <div class="course-code">'' @ escapeHtml (code cellData) @
       ascii ''</div>\<newline>'' @
     ascii ''                            <div class="course-location">'' @
       escapeHtml (location cellData) @ ascii ''</div>\<newline>'' @
     ascii ''                            <div class="course-lecturer">'' @
       escapeHtml (lecturer cellData) @ ascii ''</div>\<newline>'' @
     ascii ''                        </div>\<newline>'' @
     ascii ''                    </td>''\<close>

definition empty_cell :: jsstring where
  \<open>empty_cell = ascii ''<td class="empty-cell"></td>''\<close>

text \<open>
  One pass of the inner \<open>slots.forEach\<close> body: the text appended to \<open>html\<close> for one
  slot of one day (nothing for the break column after the first day), and the colour
  state after it.
\<close>

definition render_cell ::
  "bool \<Rightarrow> nat \<Rightarrow> (nat \<rightharpoonup> CellData) \<Rightarrow> nat \<Rightarrow> ColorState \<Rightarrow> jsstring \<times> ColorState" where
  "render_cell has dayIndex dayData slot st =
     (if slot = 6 \<and> \<not> has then
        (if dayIndex = 0 then (break_cell, st) else ([], st))
      else
        (case dayData slot of
           None \<Rightarrow> (empty_cell, st)
         | Some cellData \<Rightarrow>
             (case code cellData of
                None \<Rightarrow> (empty_cell, st)
              | Some c \<Rightarrow>
                  if c = [] then (empty_cell, st)
                  else (let (color, st') = getCourseColor c st
                        in (course_cell color cellData, st')))))"

text \<open>The inner loop over the slots of one day, in order, threading the colour state.\<close>

fun render_slots ::
  "bool \<Rightarrow> nat \<Rightarrow> (nat \<rightharpoonup> CellData) \<Rightarrow> nat list \<Rightarrow> ColorState \<Rightarrow> jsstring list \<times> ColorState" where
  "render_slots has dayIndex dayData [] st = ([], st)"
| "render_slots has dayIndex dayData (slot # slots) st =
     (let (cell, st1) = render_cell has dayIndex dayData slot st;
          (cells, st2) = render_slots has dayIndex dayData slots st1
      in (cell # cells, st2))"

text \<open>The outer \<open>DAYS.forEach((day, dayIndex) => ...)\<close>: one list of cell texts per day.\<close>

fun render_days ::
  "bool \<Rightarrow> TimetableData \<Rightarrow> jsstring list \<Rightarrow> nat \<Rightarrow> ColorState \<Rightarrow> jsstring list list \<times> ColorState" where
  "render_days has data [] dayIndex st = ([], st)"
| "render_days has data (day # days) dayIndex st =
     (let dayData = dayData_of data day;
          (cells, st1) = render_slots has dayIndex dayData (time_slots data) st;
          (rows, st2) = render_days has data days (Suc dayIndex) st1
      in (cells # rows, st2))"

definition row_html :: "jsstring \<Rightarrow> jsstring list \<Rightarrow> jsstring" where
  \<open>row_html day cells =
     ascii ''<tr><td class="day-cell">'' @ day @ ascii ''</td>'' @ concat cells @ ascii ''</tr>''\<close>

definition header_cells :: "TimetableData \<Rightarrow> jsstring list" where
  "header_cells data =
     map (header_cell (hasBreakClasses data) (slot_times data)) (time_slots data)"

definition body_cells :: "TimetableData \<Rightarrow> jsstring list list" where
  "body_cells data = fst (render_days (hasBreakClasses data) data DAYS 0 reset_colors)"

definition table_html :: "TimetableData \<Rightarrow> jsstring" where
  \<open>table_html data =
     ascii ''<thead><tr><th class="day-header">Day</th>'' @
     concat (header_cells data) @
     ascii ''</tr></thead><tbody>'' @
     concat (map2 row_html DAYS (body_cells data)) @
     ascii ''</tbody>''\<close>

text \<open>The page state the timetable viewer reads and writes.\<close>

record ViewerState =
  colors :: ColorState
  currentSectionName :: jsstring
  sectionTitle_textContent :: jsstring
  timetable_innerHTML :: jsstring
  timetableContainer_hidden :: bool
  loading_hidden :: bool
  alerts :: "jsstring list"
  console_errors :: "(jsstring \<times> jsstring) list"
  requests :: "jsstring list"
  sectionSelect_value :: jsstring
  viewer_sectionSelect_options :: "(jsstring \<times> jsstring) list"

definition renderTimetable :: "TimetableData \<Rightarrow> ViewerState \<Rightarrow> ViewerState" where
  "renderTimetable data vs =
     vs\<lparr>colors := snd (render_days (hasBreakClasses data) data DAYS 0 reset_colors),
        currentSectionName := ascii ''Section_'' @ section_to_string (section_id data),
        sectionTitle_textContent := ascii ''SECTION '' @ section_to_string (section_id data),
        timetable_innerHTML := table_html data,
        timetableContainer_hidden := False\<rparr>"

text \<open>
  The outcome of \<open>fetch\<close> followed by \<open>response.json()\<close>: a network or parse
  failure (the rejection, with its message) or the parsed value.
\<close>

datatype 'a fetched = Failed jsstring | Loaded 'a

subsection \<open>loadSections of prettier.js (lines 55-69)\<close>

text \<open>
  Called once when the page has loaded. One request; the parsed value is the list
  \<open>data.sections\<close>, and each section becomes an option of the select element, by its
  value and its text. A failed request, a failed parse and a body without a list of
  sections all reach the catch block, which only calls \<open>console.error\<close>: it raises
  no alert and writes nothing to the page, and it never touches the loading indicator.
\<close>

definition section_option :: "section_id \<Rightarrow> jsstring \<times> jsstring" where
  "section_option s = (section_to_string s, ascii ''Section '' @ section_to_string s)"

definition loadSections_viewer :: "section_id list fetched \<Rightarrow> ViewerState \<Rightarrow> ViewerState" where
  "loadSections_viewer outcome vs =
     (let vs1 = vs\<lparr>requests := requests vs @ [ascii ''/api/sections'']\<rparr>
      in case outcome of
           Loaded sections \<Rightarrow>
             vs1\<lparr>viewer_sectionSelect_options :=
                   viewer_sectionSelect_options vs1 @ map section_option sections\<rparr>
         | Failed err \<Rightarrow>
             vs1\<lparr>console_errors := console_errors vs1 @ [(ascii ''Failed to load sections:'', err)]\<rparr>)"

text \<open>An example page of the timetable viewer, with nothing loaded yet.\<close>

definition example_viewer :: ViewerState where
  "example_viewer =
     \<lparr>colors = reset_colors, currentSectionName = ascii ''timetable'',
      sectionTitle_textContent = [], timetable_innerHTML = [],
      timetableContainer_hidden = True, loading_hidden = True, alerts = [],
      console_errors = [], requests = [], sectionSelect_value = [],
      viewer_sectionSelect_options = []\<rparr>"

subsection \<open>loadTimetable (lines 116-134)\<close>

text \<open>
  The parsed body of the timetable request: an object with a truthy \<open>error\<close>
  property, or a timetable.
\<close>

datatype timetable_response = ErrorBody jsstring | TimetableBody TimetableData

text \<open>showLoading and hideLoading of prettier.js (lines 166-173).\<close>

definition showLoading_viewer :: "ViewerState \<Rightarrow> ViewerState" where
  "showLoading_viewer vs = vs\<lparr>loading_hidden := False, timetableContainer_hidden := True\<rparr>"

definition hideLoading_viewer :: "ViewerState \<Rightarrow> ViewerState" where
  "hideLoading_viewer vs = vs\<lparr>loading_hidden := True\<rparr>"

text \<open>The catch block: \<open>console.error\<close>, then \<open>alert\<close> with the error's message.\<close>

definition loadTimetable_catch :: "jsstring \<Rightarrow> ViewerState \<Rightarrow> ViewerState" where
  "loadTimetable_catch message vs =
     vs\<lparr>console_errors := console_errors vs @ [(ascii ''Failed to load timetable:'', message)],
        alerts := alerts vs @ [ascii ''Failed to load timetable: '' @ message]\<rparr>"

text \<open>
  One request; a failed fetch or parse and a body with an error both reach the catch
  block; the finally block hides the loading indicator on every path.
\<close>

definition loadTimetable ::
  "jsstring \<Rightarrow> timetable_response fetched \<Rightarrow> ViewerState \<Rightarrow> ViewerState" where
  "loadTimetable section_arg outcome vs =
     (let vs1 = showLoading_viewer vs;
          vs2 = vs1\<lparr>requests := requests vs1 @ [ascii ''/api/timetable/'' @ section_arg]\<rparr>;
          vs3 = (case outcome of
                   Failed message \<Rightarrow> loadTimetable_catch message vs2
                 | Loaded (ErrorBody e) \<Rightarrow> loadTimetable_catch e vs2
                 | Loaded (TimetableBody data) \<Rightarrow> renderTimetable data vs2)
      in hideLoading_viewer vs3)"

subsection \<open>uploadAndParse (lines 136-164)\<close>

definition uploadAndParse_catch :: "jsstring \<Rightarrow> ViewerState \<Rightarrow> ViewerState" where
  "uploadAndParse_catch message vs =
     vs\<lparr>console_errors := console_errors vs @ [(ascii ''Failed to parse uploaded file:'', message)],
        alerts := alerts vs @ [ascii ''Failed to parse uploaded file: '' @ message]\<rparr>"

text \<open>
  The same shape as loadTimetable, with the upload request instead; the uploaded file
  only travels in the request body. On success the section select is cleared before
  the table is rendered.
\<close>

definition uploadAndParse :: "timetable_response fetched \<Rightarrow> ViewerState \<Rightarrow> ViewerState" where
  "uploadAndParse outcome vs =
     (let vs1 = showLoading_viewer vs;
          vs2 = vs1\<lparr>requests := requests vs1 @ [ascii ''/api/upload'']\<rparr>;
          vs3 = (case outcome of
                   Failed message \<Rightarrow> uploadAndParse_catch message vs2
                 | Loaded (ErrorBody e) \<Rightarrow> uploadAndParse_catch e vs2
                 | Loaded (TimetableBody data) \<Rightarrow>
                     renderTimetable data (vs2\<lparr>sectionSelect_value := []\<rparr>))
      in hideLoading_viewer vs3)"

text \<open>
  Bookkeeping for the statements about colours: the codes for which one cell, one row
  and the whole render call \<open>getCourseColor\<close>, in call order; the state after a
  sequence of calls; and the first-seen rank of a code in a sequence (the number of
  distinct codes met before its first occurrence).
\<close>

definition codes_at :: "bool \<Rightarrow> (nat \<rightharpoonup> CellData) \<Rightarrow> nat \<Rightarrow> jsstring list" where
  "codes_at has dayData slot =
     (if slot = 6 \<and> \<not> has then []
      else (case dayData slot of
              None \<Rightarrow> []
            | Some cellData \<Rightarrow>
                (case code cellData of None \<Rightarrow> [] | Some c \<Rightarrow> if c = [] then [] else [c])))"

definition row_codes :: "bool \<Rightarrow> (nat \<rightharpoonup> CellData) \<Rightarrow> nat list \<Rightarrow> jsstring list" where
  "row_codes has dayData slots = concat (map (codes_at has dayData) slots)"

definition rendered_codes :: "TimetableData \<Rightarrow> jsstring list" where
  "rendered_codes data =
     concat (map (\<lambda>day. row_codes (hasBreakClasses data) (dayData_of data day) (time_slots data))
       DAYS)"

definition assign_all :: "jsstring list \<Rightarrow> ColorState \<Rightarrow> ColorState" where
  "assign_all cs st = fold (\<lambda>c s. snd (getCourseColor c s)) cs st"

definition first_seen_rank :: "jsstring list \<Rightarrow> jsstring \<Rightarrow> nat" where
  "first_seen_rank cs c = length (remdups (takeWhile (\<lambda>x. x \<noteq> c) cs))"

definition days_codes :: "bool \<Rightarrow> TimetableData \<Rightarrow> jsstring list \<Rightarrow> jsstring list" where
  "days_codes has data days =
     concat (map (\<lambda>day. row_codes has (dayData_of data day) (time_slots data)) days)"

definition seen_state :: "jsstring list \<Rightarrow> ColorState" where
  "seen_state cs =
     \<lparr>courseColors = (\<lambda>c. if c \<in> set cs
                            then Some (COLORS ! (first_seen_rank cs c mod length COLORS))
                            else None),
      colorIndex = length (remdups cs)\<rparr>"


text \<open>The codes passed to \<open>getCourseColor\<close> before the cell of day \<open>i\<close>, column \<open>j\<close>.\<close>

definition codes_before :: "TimetableData \<Rightarrow> nat \<Rightarrow> nat \<Rightarrow> jsstring list" where
  "codes_before data i j =
     days_codes (hasBreakClasses data) data (take i DAYS) @
     row_codes (hasBreakClasses data) (dayData_of data (DAYS ! i)) (take j (time_slots data))"

section \<open>Comparison view (app.js)\<close>

record Course =
  course_name :: jsstring
  lecturer_name :: jsstring
  shared_sections :: "section_id list"

text \<open>The parsed response of the shared-lecturers request; \<open>courses\<close> may be missing.\<close>

record SharedLecturers =
  courses :: "Course list option"

text \<open>The part of the page the comparison view reads and writes.\<close>

record ComparisonState =
  resultsContainer_innerHTML :: jsstring
  resultsContainer_display :: jsstring
  loadingEl_active :: bool
  statsBar_display :: jsstring
  totalCoursesEl_textContent :: jsstring
  sharedCountEl_textContent :: jsstring
  console_log :: "(jsstring \<times> jsstring) list"
  fetched_urls :: "jsstring list"
  sectionSelect_options :: "(jsstring \<times> jsstring) list"

text \<open>
  loadSections of app.js (lines 26-40), the same function as in prettier.js: one
  request, an option per section, and a catch block that only logs.
\<close>

definition loadSections :: "section_id list fetched \<Rightarrow> ComparisonState \<Rightarrow> ComparisonState" where
  "loadSections outcome st =
     (let st1 = st\<lparr>fetched_urls := fetched_urls st @ [ascii ''/api/sections'']\<rparr>
      in case outcome of
           Loaded sections \<Rightarrow>
             st1\<lparr>sectionSelect_options := sectionSelect_options st1 @ map section_option sections\<rparr>
         | Failed err \<Rightarrow>
             st1\<lparr>console_log := console_log st1 @ [(ascii ''Failed to load sections:'', err)]\<rparr>)"

definition showEmptyState :: "jsstring \<Rightarrow> ComparisonState \<Rightarrow> ComparisonState" where
  \<open>showEmptyState message st =
     st\<lparr>statsBar_display := ascii ''none'',
        resultsContainer_innerHTML :=
          ascii ''\<newline>'' @
          ascii ''            <div class="empty-state">\<newline>'' @
          ascii ''                <div class="empty-state-icon">'' @
          [55357, 56538] @
          ascii ''</div>\<newline>'' @
          ascii ''                <p class="empty-state-text">'' @
          message @
          ascii ''</p>\<newline>'' @
          ascii ''            </div>\<newline>'' @
          ascii ''        ''\<rparr>\<close>

definition showLoading :: "ComparisonState \<Rightarrow> ComparisonState" where
  "showLoading st =
     st\<lparr>loadingEl_active := True,
        resultsContainer_display := ascii ''none'',
        statsBar_display := ascii ''none''\<rparr>"

definition hideLoading :: "ComparisonState \<Rightarrow> ComparisonState" where
  "hideLoading st =
     st\<lparr>loadingEl_active := False,
        resultsContainer_display := ascii ''flex''\<rparr>"

text \<open>\<open>`<span class="section-badge">Section ${s}</span>`\<close>.\<close>

definition section_badge :: "section_id \<Rightarrow> jsstring" where
  \<open>section_badge s =
     ascii ''<span class="section-badge">Section '' @ section_to_string s @ ascii ''</span>''\<close>

text \<open>The conditional expression inside the card template.\<close>

definition shared_html :: "Course \<Rightarrow> jsstring" where
  \<open>shared_html course =
     (if length (shared_sections course) > 0
      then ascii ''<span class="shared-label">Shared with:</span>\<newline>'' @
           ascii ''                           '' @
           concat (map section_badge (shared_sections course))
      else ascii ''<span class="no-shared">No other sections share this lecturer</span>'')\<close>

text \<open>
  One course card. \<open>delay\<close> is the text JavaScript prints for the number
  \<open>index * 0.05\<close> (a double); it is a parameter of the model.
\<close>

definition course_card :: "jsstring \<Rightarrow> Course \<Rightarrow> jsstring" where
  \<open>course_card delay course =
     ascii ''\<newline>'' @
     ascii ''            <div class="course-card" style="animation-delay: '' @
     delay @
     ascii ''s">\<newline>'' @
     ascii ''                <div class="course-name">'' @
     course_name course @
     ascii ''</div>\<newline>'' @
     ascii ''                <div class="lecturer-name">'' @
     lecturer_name course @
     ascii ''</div>\<newline>'' @
     ascii ''                <div class="shared-sections">\<newline>'' @
     ascii ''                    '' @
     shared_html course @
     ascii ''\<newline>'' @
     ascii ''                </div>\<newline>'' @
     ascii ''            </div>\<newline>'' @
     ascii ''        ''\<close>

text \<open>\<open>courses.map((course, index) => ...)\<close>: the cards, with the running index.\<close>

fun course_cards :: "(nat \<Rightarrow> jsstring) \<Rightarrow> nat \<Rightarrow> Course list \<Rightarrow> jsstring list" where
  "course_cards delay_text index [] = []"
| "course_cards delay_text index (course # rest) =
     course_card (delay_text index) course # course_cards delay_text (Suc index) rest"

text \<open>\<open>courses.reduce((sum, c) => sum + c.shared_sections.length, 0)\<close>.\<close>

definition totalShared :: "Course list \<Rightarrow> nat" where
  "totalShared cs = foldl (\<lambda>sum c. sum + length (shared_sections c)) 0 cs"

definition renderResults ::
  "(nat \<Rightarrow> jsstring) \<Rightarrow> SharedLecturers \<Rightarrow> ComparisonState \<Rightarrow> ComparisonState" where
  "renderResults delay_text data st =
     (case courses data of
        None \<Rightarrow> showEmptyState (ascii ''No courses found for this section'') st
      | Some cs \<Rightarrow>
          if length cs = 0 then showEmptyState (ascii ''No courses found for this section'') st
          else st\<lparr>statsBar_display := ascii ''flex'',
                  totalCoursesEl_textContent := digits (length cs),
                  sharedCountEl_textContent := digits (totalShared cs),
                  resultsContainer_innerHTML := concat (course_cards delay_text 0 cs)\<rparr>)"

definition load_failed_html :: jsstring where
  \<open>load_failed_html =
     ascii ''\<newline>'' @
     ascii ''                <div class="empty-state">\<newline>'' @
     ascii ''                    <div class="empty-state-icon">'' @
     [10060] @
     ascii ''</div>\<newline>'' @
     ascii ''                    <p class="empty-state-text">Failed to load data. Please try again.</p>\<newline>'' @
     ascii ''                </div>\<newline>'' @
     ascii ''            ''\<close>

text \<open>
  loadSharedLecturers (lines 42-61): one request, then the try branch or the catch
  branch. The section id arrives as the select element's value, a string.
\<close>

definition loadSharedLecturers ::
  "(nat \<Rightarrow> jsstring) \<Rightarrow> jsstring \<Rightarrow> SharedLecturers fetched \<Rightarrow> ComparisonState \<Rightarrow> ComparisonState" where
  "loadSharedLecturers delay_text sectionId outcome st =
     (let st1 = showLoading st;
          st2 = st1\<lparr>fetched_urls := fetched_urls st1 @ [ascii ''/api/shared-lecturers/'' @ sectionId]\<rparr>
      in case outcome of
           Loaded data \<Rightarrow> renderResults delay_text data (hideLoading st2)
         | Failed err \<Rightarrow>
             (hideLoading (st2\<lparr>console_log := console_log st2 @ [(ascii ''Failed to load data:'', err)]\<rparr>))
               \<lparr>resultsContainer_innerHTML := load_failed_html\<rparr>)"

text \<open>An example course list and page.\<close>

definition example_courses :: "Course list" where
  "example_courses =
     [\<lparr>course_name = ascii ''<b>Maths</b>'', lecturer_name = ascii ''Dr. A & B'',
        shared_sections = [SectionNumber 2, SectionString (ascii ''7A''), SectionNumber 11]\<rparr>,
      \<lparr>course_name = ascii ''Physics'', lecturer_name = ascii ''Dr. C'', shared_sections = []\<rparr>]"

definition example_page :: ComparisonState where
  "example_page =
     \<lparr>resultsContainer_innerHTML = [], resultsContainer_display = ascii ''flex'',
      loadingEl_active = False, statsBar_display = ascii ''none'',
      totalCoursesEl_textContent = ascii ''0'', sharedCountEl_textContent = ascii ''0'',
      console_log = [], fetched_urls = [], sectionSelect_options = []\<rparr>"

section \<open>Export pipeline (prettier.js, downloadAsImage and downloadAsPdf)\<close>

subsection \<open>Double-precision arithmetic\<close>

text \<open>
  JavaScript numbers are IEEE 754 binary64 values. A finite one is a rational number;
  an arithmetic operation gives the exact result rounded to the nearest representable
  number, ties to the even significand. \<open>fl\<close> is that rounding for a 53-bit
  significand; the exponent range is not limited here (the numbers met below are
  ratios and products of integers below \<open>2^32\<close>, their differences from 16/9 and
  the constant 0.01, all zero or far inside the normal range). \<open>ilog2 x\<close> is the
  exponent of the binade of a positive \<open>x\<close>: \<open>2^(ilog2 x) \<le> x < 2^(ilog2 x + 1)\<close>.
\<close>

definition ilog2 :: "rat \<Rightarrow> int" where
  "ilog2 x =
     (if 1 \<le> x then int (floorlog 2 (nat \<lfloor>x\<rfloor>)) - 1
      else - int (floorlog 2 (nat (\<lceil>1 / x\<rceil> - 1))))"

definition round_half_even :: "rat \<Rightarrow> int" where
  "round_half_even y =
     (let f = \<lfloor>y\<rfloor>; d = y - of_int f
      in if d < 1 / 2 then f else if 1 / 2 < d then f + 1 else if even f then f else f + 1)"

definition fl :: "rat \<Rightarrow> rat" where
  "fl x =
     (if x = 0 then 0
      else (let e = ilog2 \<bar>x\<bar> - 52
            in sgn x * of_int (round_half_even (\<bar>x\<bar> / 2 powi e)) * 2 powi e))"

text \<open>\<open>Math.round\<close>: the nearest integer, a tie going up.\<close>

definition Math_round :: "rat \<Rightarrow> int" where
  "Math_round y = \<lfloor>y + 1 / 2\<rfloor>"

subsection \<open>Padding to 16:9 (lines 321-355 and 410-441, the same code twice)\<close>

text \<open>A canvas, by its dimensions (\<open>canvas.width\<close>, \<open>canvas.height\<close>: integers).\<close>

record Canvas =
  width :: nat
  height :: nat

definition targetRatio :: rat where
  "targetRatio = fl (16 / 9)"

text \<open>
  \<open>canvas.width / canvas.height\<close>: the rounded quotient, or \<open>Infinity\<close> when
  only the height is 0, or \<open>NaN\<close> when both are 0.
\<close>

datatype js_ratio = FiniteRatio rat | InfinityRatio | NaNRatio

definition currentRatio :: "Canvas \<Rightarrow> js_ratio" where
  "currentRatio canvas =
     (if height canvas = 0 then (if width canvas = 0 then NaNRatio else InfinityRatio)
      else FiniteRatio (fl (of_nat (width canvas) / of_nat (height canvas))))"

text \<open>
  The two tests on it, \<open>Math.abs(currentRatio - targetRatio) > 0.01\<close> and
  \<open>currentRatio > targetRatio\<close>; every comparison with \<open>NaN\<close> is false.
\<close>

definition off_target :: "js_ratio \<Rightarrow> bool" where
  "off_target r =
     (case r of
        FiniteRatio c \<Rightarrow> \<bar>fl (c - targetRatio)\<bar> > fl (1 / 100)
      | InfinityRatio \<Rightarrow> True
      | NaNRatio \<Rightarrow> False)"

definition above_target :: "js_ratio \<Rightarrow> bool" where
  "above_target r =
     (case r of
        FiniteRatio c \<Rightarrow> c > targetRatio
      | InfinityRatio \<Rightarrow> True
      | NaNRatio \<Rightarrow> False)"

text \<open>
  Assigning a number to \<open>canvas.width\<close> or \<open>canvas.height\<close>. Both are
  \<open>unsigned long\<close> attributes that reflect a content attribute: the integer is first
  reduced modulo \<open>2^32\<close> (the conversion to \<open>unsigned long\<close>), and a value above
  \<open>2147483647\<close> is replaced by the attribute's default, 300 for the width and 150 for
  the height. Reading the attribute gives the stored value, so the dimensions of a
  canvas are at most \<open>2147483647\<close>.
\<close>

definition canvas_dimension :: "nat \<Rightarrow> int \<Rightarrow> nat" where
  "canvas_dimension fallback v =
     (let u = v mod 2 ^ 32 in if u \<le> 2147483647 then nat u else fallback)"

text \<open>
  The result of the block: the final canvas and, when a new canvas was created and
  filled with the background colour, the offsets at which \<open>drawImage\<close> placed the
  source canvas on it.
\<close>

record Padded =
  finalCanvas :: Canvas
  drawImage_at :: "(int \<times> int) option"

definition ensure_16_9 :: "Canvas \<Rightarrow> Padded" where
  "ensure_16_9 canvas =
     (if off_target (currentRatio canvas) then
        (let (newWidth, newHeight) =
               (if above_target (currentRatio canvas)
                then (int (width canvas), Math_round (fl (of_nat (width canvas) / targetRatio)))
                else (Math_round (fl (of_nat (height canvas) * targetRatio)), int (height canvas)));
             xOffset = Math_round (fl (fl (of_int newWidth - of_nat (width canvas)) / 2));
             yOffset = Math_round (fl (fl (of_int newHeight - of_nat (height canvas)) / 2))
         in \<lparr>finalCanvas = \<lparr>width = canvas_dimension 300 newWidth,
                             height = canvas_dimension 150 newHeight\<rparr>,
             drawImage_at = Some (xOffset, yOffset)\<rparr>)
      else \<lparr>finalCanvas = canvas, drawImage_at = None\<rparr>)"

subsection \<open>The two download handlers (lines 289-376 and 378-473)\<close>

text \<open>
  \<open>String.prototype.replace(/\s+/g, '_')\<close>: every maximal run of white space and
  line terminators becomes one underscore.
\<close>

definition is_js_space :: "nat \<Rightarrow> bool" where
  "is_js_space u =
     (u \<in> {9, 10, 11, 12, 13, 32, 160, 5760, 8232, 8233, 8239, 8287, 12288, 65279}
      \<or> (8192 \<le> u \<and> u \<le> 8202))"

function replace_ws :: "jsstring \<Rightarrow> jsstring" where
  "replace_ws [] = []"
| "replace_ws (u # us) =
     (if is_js_space u then 95 # replace_ws (dropWhile is_js_space us) else u # replace_ws us)"
  by pat_completeness auto
termination
  by (relation "measure length") (auto simp: length_dropWhile_le less_Suc_eq_le)

text \<open>
  What the browser and the two libraries answer during one export: html2canvas
  rejects with a message or resolves with the captured canvas; drawing on the new
  canvas and \<open>toDataURL\<close> throw or give the data URL of the final canvas; the jsPDF
  steps (the constructor from \<open>window.jspdf\<close>, \<open>addImage\<close>, \<open>save\<close>) throw or succeed.
\<close>

record ExportEnv =
  html2canvas_result :: "jsstring + Canvas"
  toDataURL_result :: "Canvas \<Rightarrow> jsstring + jsstring"
  jsPDF_error :: "jsstring option"

text \<open>A file handed to the user: name and content.\<close>

datatype download =
    PngDownload jsstring jsstring
  | PdfDownload jsstring rat rat jsstring

record ExportState =
  downloadImageBtn_disabled :: bool
  downloadImageBtn_content :: jsstring
  downloadPdfBtn_disabled :: bool
  downloadPdfBtn_content :: jsstring
  export_alerts :: "jsstring list"
  export_console :: "(jsstring \<times> jsstring) list"
  html2canvas_calls :: nat
  downloads :: "download list"

definition image_button_label :: jsstring where
  \<open>image_button_label =
     ascii ''\<newline>'' @
     ascii ''            <svg xmlns="http://www.w3.org/2000/svg" width="20" height="20" viewBox="0 0 24 24" fill="none" stroke="currentColor" stroke-width="2" stroke-linecap="round" stroke-linejoin="round">\<newline>'' @
     ascii ''                <rect x="3" y="3" width="18" height="18" rx="2" ry="2"/>\<newline>'' @
     ascii ''                <circle cx="8.5" cy="8.5" r="1.5"/>\<newline>'' @
     ascii ''                <polyline points="21 15 16 10 5 21"/>\<newline>'' @
     ascii ''            </svg>\<newline>'' @
     ascii ''            Download as Image\<newline>'' @
     ascii ''        ''\<close>

definition pdf_button_label :: jsstring where
  \<open>pdf_button_label =
     ascii ''\<newline>'' @
     ascii ''            <svg xmlns="http://www.w3.org/2000/svg" width="20" height="20" viewBox="0 0 24 24" fill="none" stroke="currentColor" stroke-width="2" stroke-linecap="round" stroke-linejoin="round">\<newline>'' @
     ascii ''                <path d="M14 2H6a2 2 0 0 0-2 2v16a2 2 0 0 0 2 2h12a2 2 0 0 0 2-2V8z"/>\<newline>'' @
     ascii ''                <polyline points="14 2 14 8 20 8"/>\<newline>'' @
     ascii ''                <line x1="12" y1="18" x2="12" y2="12"/>\<newline>'' @
     ascii ''                <line x1="9" y1="15" x2="15" y2="15"/>\<newline>'' @
     ascii ''            </svg>\<newline>'' @
     ascii ''            Download as PDF\<newline>'' @
     ascii ''        ''\<close>

text \<open>The catch blocks.\<close>

definition image_catch :: "jsstring \<Rightarrow> ExportState \<Rightarrow> ExportState" where
  "image_catch err st =
     st\<lparr>export_console := export_console st @ [(ascii ''Failed to generate image:'', err)],
        export_alerts := export_alerts st @ [ascii ''Failed to generate image. Please try again.'']\<rparr>"

definition pdf_catch :: "jsstring \<Rightarrow> ExportState \<Rightarrow> ExportState" where
  "pdf_catch err st =
     st\<lparr>export_console := export_console st @ [(ascii ''Failed to generate PDF:'', err)],
        export_alerts := export_alerts st @ [ascii ''Failed to generate PDF. Please try again.'']\<rparr>"

text \<open>
  downloadAsImage: the try block up to the first exception, the catch block if there
  is one, then the finally block. \<open>sectionName\<close> is the value of the module
  variable \<open>currentSectionName\<close> when the handler runs.
\<close>

definition downloadAsImage :: "ExportEnv \<Rightarrow> jsstring \<Rightarrow> ExportState \<Rightarrow> ExportState" where
  "downloadAsImage env sectionName st =
     (let st1 = st\<lparr>downloadImageBtn_disabled := True,
                    downloadImageBtn_content := ascii ''Generating...''\<rparr>;
          st2 = st1\<lparr>html2canvas_calls := html2canvas_calls st1 + 1\<rparr>;
          st3 = (case html2canvas_result env of
                   Inl err \<Rightarrow> image_catch err st2
                 | Inr canvas \<Rightarrow>
                     (case toDataURL_result env (finalCanvas (ensure_16_9 canvas)) of
                        Inl err \<Rightarrow> image_catch err st2
                      | Inr href \<Rightarrow>
                          st2\<lparr>downloads := downloads st2 @
                            [PngDownload (replace_ws sectionName @ ascii ''.png'') href]\<rparr>))
      in st3\<lparr>downloadImageBtn_disabled := False,
             downloadImageBtn_content := image_button_label\<rparr>)"

definition downloadAsPdf :: "ExportEnv \<Rightarrow> jsstring \<Rightarrow> ExportState \<Rightarrow> ExportState" where
  "downloadAsPdf env sectionName st =
     (let st1 = st\<lparr>downloadPdfBtn_disabled := True,
                    downloadPdfBtn_content := ascii ''Generating...''\<rparr>;
          st2 = st1\<lparr>html2canvas_calls := html2canvas_calls st1 + 1\<rparr>;
          st3 = (case html2canvas_result env of
                   Inl err \<Rightarrow> pdf_catch err st2
                 | Inr canvas \<Rightarrow>
                     (let final = finalCanvas (ensure_16_9 canvas)
                      in case toDataURL_result env final of
                           Inl err \<Rightarrow> pdf_catch err st2
                         | Inr imgData \<Rightarrow>
                             (case jsPDF_error env of
                                Some err \<Rightarrow> pdf_catch err st2
                              | None \<Rightarrow>
                                  st2\<lparr>downloads := downloads st2 @
                                    [PdfDownload (replace_ws sectionName @ ascii ''.pdf'')
                                       (fl (of_nat (width final) / 2))
                                       (fl (of_nat (height final) / 2)) imgData]\<rparr>)))
      in st3\<lparr>downloadPdfBtn_disabled := False,
             downloadPdfBtn_content := pdf_button_label\<rparr>)"

text \<open>Whether an export meets an exception in its try block.\<close>

definition image_export_fails :: "ExportEnv \<Rightarrow> bool" where
  "image_export_fails env =
     (case html2canvas_result env of
        Inl err \<Rightarrow> True
      | Inr canvas \<Rightarrow> isl (toDataURL_result env (finalCanvas (ensure_16_9 canvas))))"

definition pdf_export_fails :: "ExportEnv \<Rightarrow> bool" where
  "pdf_export_fails env = (image_export_fails env \<or> jsPDF_error env \<noteq> None)"

text \<open>Examples: an export page at rest, a rejected capture and a successful one.\<close>

definition example_export_state :: ExportState where
  "example_export_state =
     \<lparr>downloadImageBtn_disabled = False, downloadImageBtn_content = image_button_label,
      downloadPdfBtn_disabled = False, downloadPdfBtn_content = pdf_button_label,
      export_alerts = [], export_console = [], html2canvas_calls = 0, downloads = []\<rparr>"

definition env_capture_fails :: ExportEnv where
  "env_capture_fails =
     \<lparr>html2canvas_result = Inl (ascii ''tainted''),
      toDataURL_result = (\<lambda>c. Inr (ascii ''data:image/png;base64,AAAA'')),
      jsPDF_error = None\<rparr>"

definition env_pdf_fails :: ExportEnv where
  "env_pdf_fails =
     \<lparr>html2canvas_result = Inr \<lparr>width = 2800, height = 1575\<rparr>,
      toDataURL_result = (\<lambda>c. Inr (ascii ''data:image/png;base64,AAAA'')),
      jsPDF_error = Some (ascii ''jspdf is undefined'')\<rparr>"

definition env_ok :: ExportEnv where
  "env_ok =
     \<lparr>html2canvas_result = Inr \<lparr>width = 2800, height = 1000\<rparr>,
      toDataURL_result = (\<lambda>c. Inr (ascii ''data:image/png;base64,AAAA'')),
      jsPDF_error = None\<rparr>"

section \<open>The break-slot classifier\<close>

lemma distinct_DAYS: "distinct DAYS"
  by (simp add: DAYS_def ascii_def)

lemma length_DAYS: "length DAYS = 5"
  by (simp add: DAYS_def)

lemma has_code_iff: "has_code (dayData_of data day) 6 \<longleftrightarrow> spec_slot6_code data day \<noteq> []"
  by (cases "code (the (the (timetable data day) 6))")
     (auto simp: has_code_def dayData_of_def spec_slot6_code_def split: option.splits)

lemma has_long_code_iff:
  "has_long_code (dayData_of data day) 6 \<longleftrightarrow> length (spec_slot6_code data day) > 1"
  by (auto simp: has_long_code_def dayData_of_def spec_slot6_code_def split: option.splits)

lemma length_daysWithBreakData: "length (daysWithBreakData data) = spec_days_with_data data"
proof -
  have "length (daysWithBreakData data) =
        card ({day. spec_slot6_code data day \<noteq> []} \<inter> set DAYS)"
    unfolding daysWithBreakData_def has_code_iff
    by (rule distinct_length_filter [OF distinct_DAYS])
  also have "{day. spec_slot6_code data day \<noteq> []} \<inter> set DAYS =
             {day \<in> set DAYS. spec_slot6_code data day \<noteq> []}"
    by auto
  finally show ?thesis by (simp add: spec_days_with_data_def)
qed

lemma hasLongCodes_iff: "hasLongCodes data \<longleftrightarrow> spec_some_long_code data"
  by (simp add: hasLongCodes_def spec_some_long_code_def list_ex_iff has_long_code_iff)

lemma spec_days_with_data_le: "spec_days_with_data data \<le> 5"
proof -
  have "length (daysWithBreakData data) \<le> length DAYS"
    unfolding daysWithBreakData_def by (rule length_filter_le)
  then show ?thesis by (simp add: length_daysWithBreakData length_DAYS)
qed

text \<open>
  Claim C1. The classifier answers "real classes" exactly when some day's slot-6 code
  is longer than one code unit, or the number of days with a non-empty slot-6 code is
  strictly between 0 and 4. In particular: no day with data is a break; one to three
  days with single-unit codes only are real classes; four or five such days are a
  break; a longer code on any day is a real class whatever the day count.
\<close>

theorem hasBreakClasses_spec:
  "(hasBreakClasses data \<longleftrightarrow>
      spec_some_long_code data \<or> (0 < spec_days_with_data data \<and> spec_days_with_data data < 4))
   \<and> (spec_days_with_data data = 0 \<longrightarrow> \<not> hasBreakClasses data)
   \<and> (\<not> spec_some_long_code data \<and> 1 \<le> spec_days_with_data data \<and> spec_days_with_data data \<le> 3
        \<longrightarrow> hasBreakClasses data)
   \<and> (\<not> spec_some_long_code data \<and> (spec_days_with_data data = 4 \<or> spec_days_with_data data = 5)
        \<longrightarrow> \<not> hasBreakClasses data)
   \<and> (spec_some_long_code data \<longrightarrow> hasBreakClasses data)
   \<and> spec_days_with_data data \<le> 5"
proof -
  have main: "hasBreakClasses data \<longleftrightarrow>
      spec_some_long_code data \<or> (0 < spec_days_with_data data \<and> spec_days_with_data data < 4)"
    by (simp add: hasBreakClasses_def hasLongCodes_iff length_daysWithBreakData)
  have zero: "spec_days_with_data data = 0 \<longrightarrow> \<not> hasBreakClasses data"
  proof
    assume z: "spec_days_with_data data = 0"
    have "\<not> spec_some_long_code data"
    proof
      assume "spec_some_long_code data"
      then obtain day where d: "day \<in> set DAYS" "length (spec_slot6_code data day) > 1"
        by (auto simp: spec_some_long_code_def)
      then have "day \<in> {day \<in> set DAYS. spec_slot6_code data day \<noteq> []}" by auto
      moreover have "finite {day \<in> set DAYS. spec_slot6_code data day \<noteq> []}" by simp
      ultimately have "0 < spec_days_with_data data"
        unfolding spec_days_with_data_def by (metis card_gt_0_iff empty_iff)
      with z show False by simp
    qed
    with z show "\<not> hasBreakClasses data" by (simp add: main)
  qed
  show ?thesis
    using main zero spec_days_with_data_le [of data] by auto
qed

lemma has_code_example:
  "has_code (dayData_of (example_data slots entries) day) 6 \<longleftrightarrow>
     (case map_of entries day of None \<Rightarrow> False | Some c \<Rightarrow> c \<noteq> [])"
  by (cases "map_of entries day")
     (simp_all add: has_code_def dayData_of_def example_data_def cell_with_code_def)

lemma has_long_code_example:
  "has_long_code (dayData_of (example_data slots entries) day) 6 \<longleftrightarrow>
     (case map_of entries day of None \<Rightarrow> False | Some c \<Rightarrow> length c > 1)"
  by (cases "map_of entries day")
     (auto simp add: has_long_code_def dayData_of_def example_data_def cell_with_code_def)

theorem hasBreakClasses_spec_witness:
  "\<not> hasBreakClasses example_none \<and> hasBreakClasses example_two
   \<and> \<not> hasBreakClasses example_five \<and> hasBreakClasses example_long"
proof -
  have n0: "spec_days_with_data example_none = 0"
    unfolding length_daysWithBreakData [symmetric] daysWithBreakData_def example_none_def
      has_code_example
    by (simp add: DAYS_def ascii_def)
  have n2: "spec_days_with_data example_two = 2"
    unfolding length_daysWithBreakData [symmetric] daysWithBreakData_def example_two_def
      has_code_example
    by (simp add: DAYS_def ascii_def)
  have l2: "\<not> spec_some_long_code example_two"
    unfolding hasLongCodes_iff [symmetric] hasLongCodes_def example_two_def has_long_code_example
    by (simp add: DAYS_def ascii_def)
  have n5: "spec_days_with_data example_five = 5"
    unfolding length_daysWithBreakData [symmetric] daysWithBreakData_def example_five_def
      has_code_example
    by (simp add: DAYS_def ascii_def)
  have l5: "\<not> spec_some_long_code example_five"
    unfolding hasLongCodes_iff [symmetric] hasLongCodes_def example_five_def has_long_code_example
    by (simp add: DAYS_def ascii_def)
  have lL: "spec_some_long_code example_long"
    unfolding hasLongCodes_iff [symmetric] hasLongCodes_def example_long_def has_long_code_example
    by (simp add: DAYS_def ascii_def)
  have r0: "\<not> hasBreakClasses example_none"
    using hasBreakClasses_spec [of example_none] n0 by blast
  have r2: "hasBreakClasses example_two"
    using hasBreakClasses_spec [of example_two] n2 l2 by simp
  have r5: "\<not> hasBreakClasses example_five"
    using hasBreakClasses_spec [of example_five] n5 l5 by simp
  have rL: "hasBreakClasses example_long"
    using hasBreakClasses_spec [of example_long] lL by blast
  show ?thesis
    using r0 r2 r5 rL by blast
qed

section \<open>The render loops\<close>

lemma length_COLORS: "length COLORS = 8"
  by (simp add: COLORS_def)

lemma assign_all_Nil: "assign_all [] st = st"
  by (simp add: assign_all_def)

lemma assign_all_Cons: "assign_all (c # cs) st = assign_all cs (snd (getCourseColor c st))"
  by (simp add: assign_all_def)

lemma assign_all_append: "assign_all (xs @ ys) st = assign_all ys (assign_all xs st)"
  by (simp add: assign_all_def)

lemma render_cell_snd: "snd (render_cell has i dd slot st) = assign_all (codes_at has dd slot) st"
  by (simp add: render_cell_def codes_at_def assign_all_Nil assign_all_Cons split_def Let_def
      split: option.splits)

lemma render_slots_snd:
  "snd (render_slots has i dd slots st) = assign_all (row_codes has dd slots) st"
proof (induction slots arbitrary: st)
  case Nil
  show ?case by (simp add: row_codes_def assign_all_Nil)
next
  case (Cons slot slots)
  have "snd (render_slots has i dd (slot # slots) st) =
        snd (render_slots has i dd slots (snd (render_cell has i dd slot st)))"
    by (simp add: split_def Let_def)
  also have "\<dots> = assign_all (row_codes has dd slots) (assign_all (codes_at has dd slot) st)"
    by (simp add: Cons.IH render_cell_snd)
  also have "\<dots> = assign_all (row_codes has dd (slot # slots)) st"
    by (simp add: row_codes_def assign_all_append)
  finally show ?case .
qed


lemma render_slots_nth:
  "j < length slots \<Longrightarrow>
   fst (render_slots has i dd slots st) ! j =
   fst (render_cell has i dd (slots ! j) (assign_all (row_codes has dd (take j slots)) st))"
proof (induction slots arbitrary: st j)
  case Nil
  then show ?case by simp
next
  case (Cons slot slots)
  show ?case
  proof (cases j)
    case 0
    then show ?thesis by (simp add: split_def Let_def row_codes_def assign_all_Nil)
  next
    case (Suc k)
    with Cons.prems have k: "k < length slots" by simp
    have "fst (render_slots has i dd (slot # slots) st) ! j =
          fst (render_slots has i dd slots (snd (render_cell has i dd slot st))) ! k"
      by (simp add: Suc split_def Let_def)
    also have "\<dots> = fst (render_cell has i dd (slots ! k)
        (assign_all (row_codes has dd (take k slots)) (assign_all (codes_at has dd slot) st)))"
      by (simp add: Cons.IH [OF k] render_cell_snd)
    also have "\<dots> = fst (render_cell has i dd ((slot # slots) ! j)
        (assign_all (row_codes has dd (take j (slot # slots))) st))"
      by (simp add: Suc row_codes_def assign_all_append)
    finally show ?thesis .
  qed
qed

lemma render_days_snd:
  "snd (render_days has data days k st) = assign_all (days_codes has data days) st"
proof (induction days arbitrary: k st)
  case Nil
  show ?case by (simp add: days_codes_def assign_all_Nil)
next
  case (Cons day days)
  have "snd (render_days has data (day # days) k st) =
        snd (render_days has data days (Suc k)
          (snd (render_slots has k (dayData_of data day) (time_slots data) st)))"
    by (simp add: split_def Let_def)
  also have "\<dots> = assign_all (days_codes has data days)
      (assign_all (row_codes has (dayData_of data day) (time_slots data)) st)"
    by (simp add: Cons.IH render_slots_snd)
  also have "\<dots> = assign_all (days_codes has data (day # days)) st"
    by (simp add: days_codes_def assign_all_append)
  finally show ?case .
qed


lemma render_days_nth:
  "i < length days \<Longrightarrow>
   fst (render_days has data days k st) ! i =
   fst (render_slots has (k + i) (dayData_of data (days ! i)) (time_slots data)
     (assign_all (days_codes has data (take i days)) st))"
proof (induction days arbitrary: k st i)
  case Nil
  then show ?case by simp
next
  case (Cons day days)
  show ?case
  proof (cases i)
    case 0
    then show ?thesis by (simp add: split_def Let_def days_codes_def assign_all_Nil)
  next
    case (Suc m)
    with Cons.prems have m: "m < length days" by simp
    have "fst (render_days has data (day # days) k st) ! i =
          fst (render_days has data days (Suc k)
            (snd (render_slots has k (dayData_of data day) (time_slots data) st))) ! m"
      by (simp add: Suc split_def Let_def)
    also have "\<dots> = fst (render_slots has (Suc k + m) (dayData_of data (days ! m)) (time_slots data)
        (assign_all (days_codes has data (take m days))
           (assign_all (row_codes has (dayData_of data day) (time_slots data)) st)))"
      by (simp add: Cons.IH [OF m] render_slots_snd)
    also have "\<dots> = fst (render_slots has (k + i) (dayData_of data ((day # days) ! i)) (time_slots data)
        (assign_all (days_codes has data (take i (day # days))) st))"
      by (simp add: Suc days_codes_def assign_all_append)
    finally show ?thesis .
  qed
qed


section \<open>Colour assignment\<close>

lemma seen_state_Nil: "seen_state [] = reset_colors"
  by (simp add: seen_state_def reset_colors_def)

lemma rank_append_mem:
  "x \<in> set cs \<Longrightarrow> first_seen_rank (cs @ ys) x = first_seen_rank cs x"
  by (simp add: first_seen_rank_def takeWhile_append1)

lemma takeWhile_first_occurrence:
  "c \<notin> set cs \<Longrightarrow> takeWhile (\<lambda>x. x \<noteq> c) (cs @ c # ys) = cs"
  by (induction cs) auto

lemma rank_append_new:
  "c \<notin> set cs \<Longrightarrow> first_seen_rank (cs @ c # ys) c = length (remdups cs)"
  by (simp add: first_seen_rank_def takeWhile_first_occurrence)

lemma rank_first_occurrence:
  "first_seen_rank (p @ c # rest) c = first_seen_rank (p @ [c]) c"
proof (cases "c \<in> set p")
  case True
  then show ?thesis by (simp add: rank_append_mem)
next
  case False
  then show ?thesis by (simp add: rank_append_new)
qed

lemma getCourseColor_seen:
  "getCourseColor c (seen_state p) =
     (COLORS ! (first_seen_rank (p @ [c]) c mod length COLORS), seen_state (p @ [c]))"
proof (cases "c \<in> set p")
  case True
  have cc: "courseColors (seen_state p) c = Some (COLORS ! (first_seen_rank p c mod length COLORS))"
    using True by (simp add: seen_state_def)
  have same: "seen_state (p @ [c]) = seen_state p"
  proof -
    have "set (p @ [c]) = set p" using True by auto
    moreover have "length (remdups (p @ [c])) = length (remdups p)"
      using True by (simp add: length_remdups_card_conv insert_absorb)
    moreover have "\<And>x. x \<in> set p \<Longrightarrow> first_seen_rank (p @ [c]) x = first_seen_rank p x"
      by (rule rank_append_mem)
    ultimately show ?thesis
      unfolding seen_state_def by (intro ColorState.equality ext) auto
  qed
  show ?thesis
    using cc True by (simp add: getCourseColor_def same rank_append_mem)
next
  case False
  have cc: "courseColors (seen_state p) c = None"
    using False by (simp add: seen_state_def)
  have idx: "colorIndex (seen_state p) = length (remdups p)"
    by (simp add: seen_state_def)
  have new: "seen_state (p @ [c]) =
      (seen_state p)\<lparr>courseColors := (courseColors (seen_state p))(c \<mapsto>
          COLORS ! (length (remdups p) mod length COLORS)),
        colorIndex := length (remdups p) + 1\<rparr>"
  proof -
    have "length (remdups (p @ [c])) = length (remdups p) + 1"
      using False by (simp add: length_remdups_card_conv)
    moreover have "\<And>x. x \<in> set p \<Longrightarrow> first_seen_rank (p @ [c]) x = first_seen_rank p x"
      by (rule rank_append_mem)
    moreover have "first_seen_rank (p @ [c]) c = length (remdups p)"
      using False by (rule rank_append_new)
    ultimately show ?thesis
      unfolding seen_state_def by (intro ColorState.equality ext) auto
  qed
  have r: "first_seen_rank (p @ [c]) c = length (remdups p)"
    using False by (rule rank_append_new)
  show ?thesis
    by (simp add: getCourseColor_def cc idx new r)
qed

lemma assign_all_reset: "assign_all cs reset_colors = seen_state cs"
proof (induction cs rule: rev_induct)
  case Nil
  show ?case by (simp add: assign_all_Nil seen_state_Nil)
next
  case (snoc c cs)
  show ?case
    by (simp add: assign_all_append assign_all_Cons assign_all_Nil snoc.IH getCourseColor_seen)
qed


section \<open>The cells of the rendered table\<close>


lemma body_cells_row:
  assumes "i < length DAYS"
  shows "body_cells data ! i =
     fst (render_slots (hasBreakClasses data) i (dayData_of data (DAYS ! i)) (time_slots data)
       (seen_state (days_codes (hasBreakClasses data) data (take i DAYS))))"
  using render_days_nth [OF assms, of "hasBreakClasses data" data 0 reset_colors]
  by (simp add: body_cells_def assign_all_reset)


lemma assign_all_seen: "assign_all ys (seen_state xs) = seen_state (xs @ ys)"
  by (simp add: assign_all_reset [symmetric] assign_all_append)

lemma body_cell_nth:
  assumes "i < length DAYS" and "j < length (time_slots data)"
  shows "body_cells data ! i ! j =
     fst (render_cell (hasBreakClasses data) i (dayData_of data (DAYS ! i)) (time_slots data ! j)
       (seen_state (codes_before data i j)))"
  by (simp add: codes_before_def body_cells_row [OF assms(1)] render_slots_nth [OF assms(2)]
      assign_all_seen)



lemma render_cell_course:
  "\<not> (slot = 6 \<and> \<not> has) \<Longrightarrow> dd slot = Some cd \<Longrightarrow> code cd = Some c \<Longrightarrow> c \<noteq> [] \<Longrightarrow>
   fst (render_cell has i dd slot st) = course_cell (fst (getCourseColor c st)) cd"
  by (auto simp: render_cell_def split_def Let_def)


lemma body_cell_course:
  assumes "i < length DAYS" and "j < length (time_slots data)"
    and "\<not> (time_slots data ! j = 6 \<and> \<not> hasBreakClasses data)"
    and "dayData_of data (DAYS ! i) (time_slots data ! j) = Some cd"
    and "code cd = Some c" and "c \<noteq> []"
  shows "body_cells data ! i ! j =
     course_cell (COLORS ! (first_seen_rank (codes_before data i j @ [c]) c mod length COLORS)) cd"
proof -
  have "fst (render_cell (hasBreakClasses data) i (dayData_of data (DAYS ! i))
          (time_slots data ! j) (seen_state (codes_before data i j))) =
        course_cell (fst (getCourseColor c (seen_state (codes_before data i j)))) cd"
    using assms(3-6) by (rule render_cell_course)
  then show ?thesis
    by (simp add: body_cell_nth [OF assms(1,2)] getCourseColor_seen)
qed




















lemma dayData_example:
  "dayData_of (example_data slots entries) day =
     (case map_of entries day of None \<Rightarrow> Map.empty | Some c \<Rightarrow> [6 \<mapsto> cell_with_code c])"
  by (cases "map_of entries day") (simp_all add: dayData_of_def example_data_def)

lemma time_slots_example: "time_slots (example_data slots entries) = slots"
  by (simp add: example_data_def)



lemma example_two_classes: "hasBreakClasses example_two"
  unfolding hasBreakClasses_def hasLongCodes_def daysWithBreakData_def example_two_def
    has_code_example has_long_code_example
  by (simp add: DAYS_def ascii_def)



lemma escape_unit_no_angle: "set (ascii ''<>'') \<inter> set (escape_unit u) = {}"
  by (simp add: escape_unit_def ascii_def)

lemma escapeHtml_no_angle: "set (ascii ''<>'') \<inter> set (escapeHtml t) = {}"
proof (cases t)
  case None
  then show ?thesis by (simp add: escapeHtml_def)
next
  case (Some s)
  have "set (ascii ''<>'') \<inter> set (concat (map escape_unit s)) = {}"
    using escape_unit_no_angle by (induction s) auto
  then show ?thesis by (simp add: escapeHtml_def Some)
qed


lemma course_cell_shape:
  "\<exists>p0 p1 p2 p3 p4 p5. \<forall>color cd. course_cell color cd =
      p0 @ color @ p1 @ escapeHtml (name cd) @ p2 @ escapeHtml (code cd) @ p3 @
      escapeHtml (location cd) @ p4 @ escapeHtml (lecturer cd) @ p5"
proof -
  have \<open>\<forall>color cd. course_cell color cd =
     (ascii ''<td>\<newline>'' @
      ascii ''                        <div class="course-cell" style="background: '') @ color @
     (ascii '';">\<newline>'' @
      ascii ''                            <div class="course-name">'') @ escapeHtml (name cd) @
     (ascii ''</div>\<newline>'' @
      ascii ''                            <div class="course-code">'') @ escapeHtml (code cd) @
     (ascii ''</div>\<newline>'' @
      ascii ''                            <div class="course-location">'') @
       escapeHtml (location cd) @
     (ascii ''</div>\<newline>'' @
      ascii ''                            <div class="course-lecturer">'') @
       escapeHtml (lecturer cd) @
     (ascii ''</div>\<newline>'' @
      ascii ''                        </div>\<newline>'' @
      ascii ''                    </td>'')\<close>
    by (simp add: course_cell_def)
  then show "\<exists>p0 p1 p2 p3 p4 p5. \<forall>color cd. course_cell color cd =
            p0 @ color @ p1 @ escapeHtml (name cd) @ p2 @ escapeHtml (code cd) @ p3 @
            escapeHtml (location cd) @ p4 @ escapeHtml (lecturer cd) @ p5"
    by (intro exI) assumption
qed














lemma rendered_codes_days: "rendered_codes data = days_codes (hasBreakClasses data) data DAYS"
  by (simp add: rendered_codes_def days_codes_def)

lemma days_codes_split:
  assumes "i < length days"
  shows "days_codes has data days =
     days_codes has data (take i days) @ row_codes has (dayData_of data (days ! i)) (time_slots data)
       @ days_codes has data (drop (Suc i) days)"
proof -
  have "days = take i days @ days ! i # drop (Suc i) days"
    using assms by (rule id_take_nth_drop)
  then have "days_codes has data days =
      days_codes has data (take i days @ days ! i # drop (Suc i) days)"
    by simp
  then show ?thesis
    by (simp add: days_codes_def)
qed

lemma row_codes_split:
  assumes "j < length slots"
  shows "row_codes has dd slots =
     row_codes has dd (take j slots) @ codes_at has dd (slots ! j) @ row_codes has dd (drop (Suc j) slots)"
proof -
  have "slots = take j slots @ slots ! j # drop (Suc j) slots"
    using assms by (rule id_take_nth_drop)
  then have "row_codes has dd slots = row_codes has dd (take j slots @ slots ! j # drop (Suc j) slots)"
    by simp
  then show ?thesis
    by (simp add: row_codes_def)
qed

lemma rendered_codes_split:
  assumes "i < length DAYS" and "j < length (time_slots data)"
    and "codes_at (hasBreakClasses data) (dayData_of data (DAYS ! i)) (time_slots data ! j) = [c]"
  shows "\<exists>rest. rendered_codes data = codes_before data i j @ c # rest"
proof -
  have "rendered_codes data =
      codes_before data i j @ c #
        (row_codes (hasBreakClasses data) (dayData_of data (DAYS ! i)) (drop (Suc j) (time_slots data))
         @ days_codes (hasBreakClasses data) data (drop (Suc i) DAYS))"
    unfolding rendered_codes_days codes_before_def
    by (subst days_codes_split [OF assms(1)], subst row_codes_split [OF assms(2)])
       (simp add: assms(3))
  then show ?thesis by blast
qed

lemma body_cell_rank:
  assumes "i < length DAYS" and "j < length (time_slots data)"
    and "\<not> (time_slots data ! j = 6 \<and> \<not> hasBreakClasses data)"
    and "dayData_of data (DAYS ! i) (time_slots data ! j) = Some cd"
    and "code cd = Some c" and "c \<noteq> []"
  shows "body_cells data ! i ! j =
     course_cell (COLORS ! (first_seen_rank (rendered_codes data) c mod 8)) cd"
proof -
  have "codes_at (hasBreakClasses data) (dayData_of data (DAYS ! i)) (time_slots data ! j) = [c]"
    using assms(3-6) by (auto simp: codes_at_def)
  from rendered_codes_split [OF assms(1,2) this]
  obtain rest where rc: "rendered_codes data = codes_before data i j @ c # rest" ..
  have r: "first_seen_rank (codes_before data i j @ [c]) c = first_seen_rank (rendered_codes data) c"
    unfolding rc by (rule rank_first_occurrence [symmetric])
  show ?thesis
    by (simp only: body_cell_course [OF assms] r length_COLORS)
qed

lemma call_color:
  assumes "k < length cs"
  shows "fst (getCourseColor (cs ! k) (assign_all (take k cs) reset_colors)) =
     COLORS ! (first_seen_rank cs (cs ! k) mod 8)"
proof -
  have "cs = take k cs @ cs ! k # drop (Suc k) cs"
    using assms by (rule id_take_nth_drop)
  then have "first_seen_rank cs (cs ! k) = first_seen_rank (take k cs @ cs ! k # drop (Suc k) cs) (cs ! k)"
    by simp
  also have "\<dots> = first_seen_rank (take k cs @ [cs ! k]) (cs ! k)"
    by (rule rank_first_occurrence)
  finally show ?thesis
    by (simp add: assign_all_reset getCourseColor_seen length_COLORS)
qed

lemma rank_distinct:
  assumes "distinct cs" and "k < length cs"
  shows "first_seen_rank cs (cs ! k) = k"
proof -
  have cs: "cs = take k cs @ cs ! k # drop (Suc k) cs"
    using assms(2) by (rule id_take_nth_drop)
  have d: "distinct (take k cs)" using assms(1) by simp
  have "cs ! k \<notin> set (take k cs)"
    using assms cs by (metis distinct_append distinct.simps(2) disjoint_iff list.set_intros(1) not_distinct_conv_prefix)
  then have "first_seen_rank (take k cs @ cs ! k # drop (Suc k) cs) (cs ! k) = length (remdups (take k cs))"
    by (rule rank_append_new)
  then show ?thesis
    using cs d assms(2) by (simp add: distinct_remdups_id)
qed

lemma renderTimetable_colors:
  "colors (renderTimetable data vs) = assign_all (rendered_codes data) reset_colors"
  by (simp add: renderTimetable_def render_days_snd rendered_codes_days)

lemma renderTimetable_html: "timetable_innerHTML (renderTimetable data vs) = table_html data"
  by (simp add: renderTimetable_def)


text \<open>
  Claim C3. Within one render the colour of a code is decided by its first-seen rank:
  the \<open>k\<close>-th call of getCourseColor after the reset returns palette entry
  \<open>r mod 8\<close>, where \<open>r\<close> is the number of distinct codes met before the first
  occurrence of the call's code (so \<open>r = i\<close> for the \<open>i\<close>-th distinct code, and
  every occurrence of a code gets the same colour). The course cells of the rendered
  table carry exactly these colours, for the codes in row-major call order. Each render
  starts from the empty map and the counter 0, whatever the state before it.
\<close>

theorem color_assignment_first_seen:
  "(\<forall>k<length cs.
      fst (getCourseColor (cs ! k) (assign_all (take k cs) reset_colors)) =
        COLORS ! (first_seen_rank cs (cs ! k) mod 8))
   \<and> (distinct cs \<longrightarrow> (\<forall>k<length cs. first_seen_rank cs (cs ! k) = k))
   \<and> (\<forall>i j cd c.
        i < length DAYS \<and> j < length (time_slots data)
        \<and> \<not> (time_slots data ! j = 6 \<and> \<not> hasBreakClasses data)
        \<and> dayData_of data (DAYS ! i) (time_slots data ! j) = Some cd
        \<and> code cd = Some c \<and> c \<noteq> []
        \<longrightarrow> body_cells data ! i ! j =
              course_cell (COLORS ! (first_seen_rank (rendered_codes data) c mod 8)) cd)
   \<and> colors (renderTimetable data vs) = assign_all (rendered_codes data) reset_colors
   \<and> timetable_innerHTML (renderTimetable data vs) = table_html data
   \<and> reset_colors = \<lparr>courseColors = Map.empty, colorIndex = 0\<rparr>
   \<and> length COLORS = 8"
  using call_color [of _ cs] rank_distinct [of cs] body_cell_rank [of _ _ data]
    renderTimetable_colors [of data vs] renderTimetable_html [of data vs]
  by (simp add: reset_colors_def length_COLORS)

lemma rendered_codes_example_two: "rendered_codes example_two = [ascii ''A'', ascii ''B'']"
proof -
  have "rendered_codes example_two =
      concat (map (\<lambda>day. row_codes True (dayData_of example_two day) (time_slots example_two)) DAYS)"
    by (simp add: rendered_codes_def example_two_classes)
  also have "\<dots> = [ascii ''A'', ascii ''B'']"
    by (simp add: row_codes_def codes_at_def DAYS_def example_two_def dayData_example
        time_slots_example cell_with_code_def ascii_def)
  finally show ?thesis .
qed

theorem color_assignment_first_seen_witness:
  "fst (getCourseColor (ascii ''A'') (assign_all [ascii ''A'', ascii ''B''] reset_colors)) =
     ascii ''var(--course-1)''
   \<and> first_seen_rank [ascii ''A'', ascii ''B''] (ascii ''B'') = 1
   \<and> body_cells example_two ! 2 ! 1 =
       course_cell (ascii ''var(--course-2)'') (cell_with_code (ascii ''B''))"
proof -
  let ?cs = "[ascii ''A'', ascii ''B'', ascii ''A'']"
  let ?ds = "[ascii ''A'', ascii ''B'']"
  note w1 = color_assignment_first_seen [of ?cs example_two undefined]
  note w2 = color_assignment_first_seen [of ?ds example_two undefined]
  have r1: "first_seen_rank ?cs (ascii ''A'') = 0"
    by (simp add: first_seen_rank_def)
  have a: "\<forall>k<length ?cs.
      fst (getCourseColor (?cs ! k) (assign_all (take k ?cs) reset_colors)) =
        COLORS ! (first_seen_rank ?cs (?cs ! k) mod 8)"
    using w1 by (rule conjunct1)
  have "2 < length ?cs" by simp
  with a have c1: "fst (getCourseColor (?cs ! 2) (assign_all (take 2 ?cs) reset_colors)) =
        COLORS ! (first_seen_rank ?cs (?cs ! 2) mod 8)"
    by blast
  have p1: "fst (getCourseColor (ascii ''A'') (assign_all ?ds reset_colors)) = ascii ''var(--course-1)''"
    using c1 by (simp add: r1 COLORS_def)
  have d: "distinct ?ds" by (simp add: ascii_def)
  have p2: "first_seen_rank ?ds (ascii ''B'') = 1"
    using w2 d by auto
  have r3: "first_seen_rank (rendered_codes example_two) (ascii ''B'') = 1"
    by (simp add: rendered_codes_example_two first_seen_rank_def ascii_def)
  have h: "(2::nat) < length DAYS \<and> (1::nat) < length (time_slots example_two)
        \<and> \<not> (time_slots example_two ! 1 = 6 \<and> \<not> hasBreakClasses example_two)
        \<and> dayData_of example_two (DAYS ! 2) (time_slots example_two ! 1) =
            Some (cell_with_code (ascii ''B''))
        \<and> code (cell_with_code (ascii ''B'')) = Some (ascii ''B'') \<and> ascii ''B'' \<noteq> []"
    by (simp add: length_DAYS example_two_classes)
       (simp add: example_two_def dayData_example time_slots_example DAYS_def cell_with_code_def
         ascii_def)
  have "body_cells example_two ! 2 ! 1 =
      course_cell (COLORS ! (first_seen_rank (rendered_codes example_two) (ascii ''B'') mod 8))
        (cell_with_code (ascii ''B''))"
    using w1 h by blast
  then have p3: "body_cells example_two ! 2 ! 1 =
       course_cell (ascii ''var(--course-2)'') (cell_with_code (ascii ''B''))"
    by (simp add: r3 COLORS_def)
  show ?thesis
    using p1 p2 p3 by blast
qed


section \<open>Comparison view\<close>

lemma totalShared_sum: "totalShared cs = sum_list (map (\<lambda>c. length (shared_sections c)) cs)"
proof -
  have "foldl (\<lambda>sum c. sum + length (shared_sections c)) a cs =
        a + sum_list (map (\<lambda>c. length (shared_sections c)) cs)" for a
    by (induction cs arbitrary: a) simp_all
  then show ?thesis by (simp add: totalShared_def)
qed

text \<open>Reading a decimal numeral back: \<open>digits\<close> loses nothing.\<close>

lemma digits_not_Nil: "digits n \<noteq> []"
  by (subst digits.simps) simp

lemma digits_inj: "digits m = digits n \<Longrightarrow> m = n"
proof (induction m arbitrary: n rule: digits.induct)
  case (1 m)
  show ?case
  proof (cases "m < 10")
    case True
    then have m: "digits m = [48 + m]" by (subst digits.simps) simp
    show ?thesis
    proof (cases "n < 10")
      case True
      then have "digits n = [48 + n]" by (subst digits.simps) simp
      with m "1.prems" show ?thesis by simp
    next
      case False
      then have "digits n = digits (n div 10) @ [48 + n mod 10]" by (subst digits.simps) simp
      with m "1.prems" digits_not_Nil [of "n div 10"] show ?thesis
        by (cases "digits (n div 10)") auto
    qed
  next
    case False
    then have m: "digits m = digits (m div 10) @ [48 + m mod 10]" by (subst digits.simps) simp
    show ?thesis
    proof (cases "n < 10")
      case True
      then have "digits n = [48 + n]" by (subst digits.simps) simp
      with m "1.prems" digits_not_Nil [of "m div 10"] show ?thesis
        by (cases "digits (m div 10)") auto
    next
      case nf: False
      then have "digits n = digits (n div 10) @ [48 + n mod 10]" by (subst digits.simps) simp
      with m "1.prems" have "digits (m div 10) = digits (n div 10)" "m mod 10 = n mod 10"
        by auto
      with "1.IH" [OF False] have "m div 10 = n div 10" "m mod 10 = n mod 10" by auto
      then show ?thesis by (metis div_mult_mod_eq)
    qed
  qed
qed

text \<open>
  Claim C4. For a non-empty course list the stats bar is shown and the two counters
  display the decimal numerals of the number of courses and of the sum of the lengths
  of the courses' shared_sections lists; the numerals determine the numbers.
\<close>

theorem aggregate_counters:
  assumes "courses data = Some cs" and "cs \<noteq> []"
  shows "totalCoursesEl_textContent (renderResults delay_text data st) = digits (length cs)
     \<and> sharedCountEl_textContent (renderResults delay_text data st) =
         digits (sum_list (map (\<lambda>c. length (shared_sections c)) cs))
     \<and> statsBar_display (renderResults delay_text data st) = ascii ''flex''
     \<and> (\<forall>m n. digits m = digits n \<longrightarrow> m = n)"
  using assms digits_inj by (auto simp: renderResults_def totalShared_sum)


theorem aggregate_counters_witness:
  "totalCoursesEl_textContent
     (renderResults (\<lambda>i. digits i) \<lparr>courses = Some example_courses\<rparr> example_page) = ascii ''2''
   \<and> sharedCountEl_textContent
     (renderResults (\<lambda>i. digits i) \<lparr>courses = Some example_courses\<rparr> example_page) = ascii ''3''"
proof -
  have c: "courses \<lparr>courses = Some example_courses\<rparr> = Some example_courses" by simp
  have ne: "example_courses \<noteq> []" by (simp add: example_courses_def)
  have l: "digits (length example_courses) = ascii ''2''"
    by (simp add: example_courses_def digits.simps ascii_def)
  have s: "digits (sum_list (map (\<lambda>c. length (shared_sections c)) example_courses)) = ascii ''3''"
    by (simp add: example_courses_def digits.simps ascii_def)
  show ?thesis
    using aggregate_counters [OF c ne, of "\<lambda>i. digits i" example_page] l s by simp
qed

lemma sublist_concat: "y \<in> set ys \<Longrightarrow> sublist y (concat ys)"
proof -
  assume "y \<in> set ys"
  then obtain a b where "ys = a @ y # b" by (auto simp: in_set_conv_decomp)
  then have "concat ys = concat a @ y @ concat b" by simp
  then show ?thesis by (metis sublist_appendI)
qed

lemma length_course_cards: "length (course_cards delay_text i cs) = length cs"
  by (induction cs arbitrary: i) simp_all

lemma course_cards_nth:
  "k < length cs \<Longrightarrow> course_cards delay_text i cs ! k = course_card (delay_text (i + k)) (cs ! k)"
proof (induction cs arbitrary: i k)
  case Nil
  then show ?case by simp
next
  case (Cons c cs)
  then show ?case by (cases k) simp_all
qed

lemma card_in_cards:
  assumes "c \<in> set cs"
  shows "\<exists>k. course_card (delay_text k) c \<in> set (course_cards delay_text 0 cs)"
proof -
  from assms obtain k where k: "k < length cs" "cs ! k = c" by (auto simp: in_set_conv_nth)
  then have "course_cards delay_text 0 cs ! k = course_card (delay_text k) c"
    by (simp add: course_cards_nth)
  moreover have "k < length (course_cards delay_text 0 cs)"
    using k by (simp add: length_course_cards)
  ultimately show ?thesis by (metis nth_mem)
qed

lemma card_name: \<open>sublist (ascii ''<div class="course-name">'' @ course_name c @ ascii ''</div>'')
    (course_card d c)\<close>
proof -
  have \<open>course_card d c =
      (ascii ''\<newline>'' @
       ascii ''            <div class="course-card" style="animation-delay: '' @ d @
       ascii ''s">\<newline>'' @ ascii ''                '') @
      (ascii ''<div class="course-name">'' @ course_name c @ ascii ''</div>'') @
      (ascii ''\<newline>'' @
       ascii ''                <div class="lecturer-name">'' @ lecturer_name c @
       ascii ''</div>\<newline>'' @
       ascii ''                <div class="shared-sections">\<newline>'' @
       ascii ''                    '' @ shared_html c @
       ascii ''\<newline>'' @
       ascii ''                </div>\<newline>'' @
       ascii ''            </div>\<newline>'' @
       ascii ''        '')\<close>
    by (simp add: course_card_def ascii_def)
  then show ?thesis by (metis sublist_appendI)
qed

lemma card_lecturer:
  \<open>sublist (ascii ''<div class="lecturer-name">'' @ lecturer_name c @ ascii ''</div>'')
    (course_card d c)\<close>
proof -
  have \<open>course_card d c =
      (ascii ''\<newline>'' @
       ascii ''            <div class="course-card" style="animation-delay: '' @ d @
       ascii ''s">\<newline>'' @
       ascii ''                <div class="course-name">'' @ course_name c @
       ascii ''</div>\<newline>'' @ ascii ''                '') @
      (ascii ''<div class="lecturer-name">'' @ lecturer_name c @ ascii ''</div>'') @
      (ascii ''\<newline>'' @
       ascii ''                <div class="shared-sections">\<newline>'' @
       ascii ''                    '' @ shared_html c @
       ascii ''\<newline>'' @
       ascii ''                </div>\<newline>'' @
       ascii ''            </div>\<newline>'' @
       ascii ''        '')\<close>
    by (simp add: course_card_def ascii_def)
  then show ?thesis by (metis sublist_appendI)
qed

lemma card_badge:
  assumes "s \<in> set (shared_sections c)"
  shows "sublist (section_badge s) (course_card d c)"
proof -
  have b: "sublist (section_badge s) (concat (map section_badge (shared_sections c)))"
    using assms by (intro sublist_concat) simp
  have "shared_sections c \<noteq> []" using assms by auto
  then have \<open>shared_html c =
      (ascii ''<span class="shared-label">Shared with:</span>\<newline>'' @
       ascii ''                           '') @
      concat (map section_badge (shared_sections c))\<close>
    by (simp add: shared_html_def)
  then have h: "sublist (concat (map section_badge (shared_sections c))) (shared_html c)"
    by (metis sublist_append_leftI)
  have \<open>course_card d c =
      (ascii ''\<newline>'' @
       ascii ''            <div class="course-card" style="animation-delay: '' @ d @
       ascii ''s">\<newline>'' @
       ascii ''                <div class="course-name">'' @ course_name c @
       ascii ''</div>\<newline>'' @
       ascii ''                <div class="lecturer-name">'' @ lecturer_name c @
       ascii ''</div>\<newline>'' @
       ascii ''                <div class="shared-sections">\<newline>'' @
       ascii ''                    '') @
      shared_html c @
      (ascii ''\<newline>'' @
       ascii ''                </div>\<newline>'' @
       ascii ''            </div>\<newline>'' @
       ascii ''        '')\<close>
    by (simp add: course_card_def)
  then have "sublist (shared_html c) (course_card d c)"
    by (metis sublist_appendI)
  with b h show ?thesis
    by (meson sublist_order.order_trans)
qed


text \<open>
  Claim C9. renderResults puts course_name, lecturer_name and each shared-section
  value into the generated HTML as they are: the results area (for a non-empty list)
  is the concatenation of the course cards, and for every course of the list the
  markup around its name, around its lecturer and around each of its sections occurs
  in it with the value unchanged between the tags. No escaping is applied, unlike in the timetable's course cell,
  whose four fields go through escapeHtml (which leaves no \<open><\<close> and no \<open>>\<close>).
\<close>

theorem renderResults_verbatim:
  assumes "courses data = Some cs"
  shows \<open>(cs \<noteq> [] \<longrightarrow>
        resultsContainer_innerHTML (renderResults delay_text data st) =
          concat (course_cards delay_text 0 cs))
     \<and> (\<forall>k<length cs. course_cards delay_text 0 cs ! k = course_card (delay_text k) (cs ! k))
     \<and> (\<forall>c\<in>set cs.
          sublist (ascii ''<div class="course-name">'' @ course_name c @ ascii ''</div>'')
            (resultsContainer_innerHTML (renderResults delay_text data st))
          \<and> sublist (ascii ''<div class="lecturer-name">'' @ lecturer_name c @ ascii ''</div>'')
            (resultsContainer_innerHTML (renderResults delay_text data st))
          \<and> (\<forall>s\<in>set (shared_sections c).
                sublist (ascii ''<span class="section-badge">Section '' @ section_to_string s @
                         ascii ''</span>'')
                  (resultsContainer_innerHTML (renderResults delay_text data st))))
     \<and> (\<exists>p0 p1 p2 p3 p4 p5. \<forall>color cd. course_cell color cd =
            p0 @ color @ p1 @ escapeHtml (name cd) @ p2 @ escapeHtml (code cd) @ p3 @
            escapeHtml (location cd) @ p4 @ escapeHtml (lecturer cd) @ p5)
     \<and> (\<forall>t. set (ascii ''<>'') \<inter> set (escapeHtml t) = {})\<close>
proof -
  let ?html = "resultsContainer_innerHTML (renderResults delay_text data st)"
  have html: "?html = concat (course_cards delay_text 0 cs)" if "cs \<noteq> []"
    using assms that by (simp add: renderResults_def)
  have nth: "\<forall>k<length cs. course_cards delay_text 0 cs ! k = course_card (delay_text k) (cs ! k)"
    by (simp add: course_cards_nth)
  have inside: "sublist x ?html" if c: "c \<in> set cs" and x: "\<And>d. sublist x (course_card d c)"
    for x c
  proof -
    from c have ne: "cs \<noteq> []" by auto
    from card_in_cards [OF c, of delay_text]
    obtain k where "course_card (delay_text k) c \<in> set (course_cards delay_text 0 cs)" ..
    then have "sublist (course_card (delay_text k) c) ?html"
      unfolding html [OF ne] by (rule sublist_concat)
    with x [of "delay_text k"] show ?thesis
      by (meson sublist_order.order_trans)
  qed
  have per_course:
    \<open>sublist (ascii ''<div class="course-name">'' @ course_name c @ ascii ''</div>'') ?html
     \<and> sublist (ascii ''<div class="lecturer-name">'' @ lecturer_name c @ ascii ''</div>'') ?html
     \<and> (\<forall>s\<in>set (shared_sections c).
           sublist (ascii ''<span class="section-badge">Section '' @ section_to_string s @
                    ascii ''</span>'') ?html)\<close>
    if c: "c \<in> set cs" for c
  proof -
    have \<open>sublist (ascii ''<span class="section-badge">Section '' @ section_to_string s @
               ascii ''</span>'') ?html\<close> if "s \<in> set (shared_sections c)" for s
      using inside [OF c, of "section_badge s"] card_badge [OF that]
      by (simp add: section_badge_def)
    then show ?thesis
      using inside [OF c card_name] inside [OF c card_lecturer] by blast
  qed
  show ?thesis
    using html nth per_course course_cell_shape escapeHtml_no_angle by blast
qed

theorem renderResults_verbatim_witness:
  \<open>sublist (ascii ''<div class="course-name"><b>Maths</b></div>'')
     (resultsContainer_innerHTML
        (renderResults (\<lambda>i. digits i) \<lparr>courses = Some example_courses\<rparr> example_page))
   \<and> sublist (ascii ''<div class="lecturer-name">Dr. A & B</div>'')
     (resultsContainer_innerHTML
        (renderResults (\<lambda>i. digits i) \<lparr>courses = Some example_courses\<rparr> example_page))
   \<and> sublist (ascii ''<span class="section-badge">Section 7A</span>'')
     (resultsContainer_innerHTML
        (renderResults (\<lambda>i. digits i) \<lparr>courses = Some example_courses\<rparr> example_page))
   \<and> escapeHtml (Some (ascii ''<b>Maths</b>'')) = ascii ''&lt;b&gt;Maths&lt;/b&gt;''
   \<and> escapeHtml (Some (ascii ''Dr. A & B'')) = ascii ''Dr. A &amp; B''\<close>
proof -
  let ?c = "\<lparr>course_name = ascii ''<b>Maths</b>'', lecturer_name = ascii ''Dr. A & B'',
        shared_sections = [SectionNumber 2, SectionString (ascii ''7A''), SectionNumber 11]\<rparr>"
  have c: "courses \<lparr>courses = Some example_courses\<rparr> = Some example_courses" by simp
  have m: "?c \<in> set example_courses" by (simp add: example_courses_def)
  have s: "SectionString (ascii ''7A'') \<in> set (shared_sections ?c)" by simp
  note w = renderResults_verbatim [OF c, of "\<lambda>i. digits i" example_page]
  have e1: "escapeHtml (Some (ascii ''<b>Maths</b>'')) = ascii ''&lt;b&gt;Maths&lt;/b&gt;''"
    by (simp add: escapeHtml_def escape_unit_def ascii_def)
  have e2: "escapeHtml (Some (ascii ''Dr. A & B'')) = ascii ''Dr. A &amp; B''"
    by (simp add: escapeHtml_def escape_unit_def ascii_def)
  have a1: \<open>ascii ''<div class="course-name">'' @ course_name ?c @ ascii ''</div>'' =
      ascii ''<div class="course-name"><b>Maths</b></div>''\<close>
    by (simp add: ascii_def)
  have a2: \<open>ascii ''<div class="lecturer-name">'' @ lecturer_name ?c @ ascii ''</div>'' =
      ascii ''<div class="lecturer-name">Dr. A & B</div>''\<close>
    by (simp add: ascii_def)
  have a3: \<open>ascii ''<span class="section-badge">Section '' @
        section_to_string (SectionString (ascii ''7A'')) @ ascii ''</span>'' =
      ascii ''<span class="section-badge">Section 7A</span>''\<close>
    by (simp add: ascii_def)
  from w m s show ?thesis
    unfolding a1 [symmetric] a2 [symmetric] a3 [symmetric] e1 e2
    by blast
qed

lemma load_failed_message:
  "sublist (ascii ''Failed to load data. Please try again.'') load_failed_html"
proof -
  have \<open>load_failed_html =
      (ascii ''\<newline>'' @
       ascii ''                <div class="empty-state">\<newline>'' @
       ascii ''                    <div class="empty-state-icon">'' @
       [10060] @
       ascii ''</div>\<newline>'' @
       ascii ''                    <p class="empty-state-text">'') @
      ascii ''Failed to load data. Please try again.'' @
      (ascii ''</p>\<newline>'' @
       ascii ''                </div>\<newline>'' @
       ascii ''            '')\<close>
    by (simp add: load_failed_html_def ascii_def)
  then show ?thesis by (metis sublist_appendI)
qed

text \<open>
  Claim C8, as amended. A network or parse failure of a request is caught where it
  happens and logged. For the requests a user action starts, the failure is also
  shown: the comparison view (loadSharedLecturers) replaces its results area by the
  inline failure message and shows the results container again; the timetable view
  (loadTimetable and uploadAndParse) raises one alert with the error's message; and
  the loading indicator is cleared, on the failure path as on every other. For the
  request of the section list, which both views send when the page has loaded, the
  failure is logged and nothing else: the page is as it was, with no inline message,
  no alert and no change of the loading indicator (when the request succeeds, each
  section becomes an option of the select element). Every call issues exactly one
  request: nothing is retried.
\<close>

theorem fetch_failure_handling:
  "console_log (loadSharedLecturers delay_text sectionId (Failed err) st) =
      console_log st @ [(ascii ''Failed to load data:'', err)]
   \<and> resultsContainer_innerHTML (loadSharedLecturers delay_text sectionId (Failed err) st) =
      load_failed_html
   \<and> sublist (ascii ''Failed to load data. Please try again.'') load_failed_html
   \<and> resultsContainer_display (loadSharedLecturers delay_text sectionId (Failed err) st) =
      ascii ''flex''
   \<and> \<not> loadingEl_active (loadSharedLecturers delay_text sectionId outcome st)
   \<and> fetched_urls (loadSharedLecturers delay_text sectionId outcome st) =
      fetched_urls st @ [ascii ''/api/shared-lecturers/'' @ sectionId]
   \<and> console_errors (loadTimetable section_arg (Failed err) vs) =
      console_errors vs @ [(ascii ''Failed to load timetable:'', err)]
   \<and> alerts (loadTimetable section_arg (Failed err) vs) =
      alerts vs @ [ascii ''Failed to load timetable: '' @ err]
   \<and> timetable_innerHTML (loadTimetable section_arg (Failed err) vs) = timetable_innerHTML vs
   \<and> loading_hidden (loadTimetable section_arg outcome' vs)
   \<and> requests (loadTimetable section_arg outcome' vs) =
      requests vs @ [ascii ''/api/timetable/'' @ section_arg]
   \<and> console_errors (uploadAndParse (Failed err) vs) =
      console_errors vs @ [(ascii ''Failed to parse uploaded file:'', err)]
   \<and> alerts (uploadAndParse (Failed err) vs) =
      alerts vs @ [ascii ''Failed to parse uploaded file: '' @ err]
   \<and> loading_hidden (uploadAndParse outcome' vs)
   \<and> requests (uploadAndParse outcome' vs) = requests vs @ [ascii ''/api/upload'']
   \<and> loadSections (Failed err) st =
      st\<lparr>fetched_urls := fetched_urls st @ [ascii ''/api/sections''],
         console_log := console_log st @ [(ascii ''Failed to load sections:'', err)]\<rparr>
   \<and> resultsContainer_innerHTML (loadSections (Failed err) st) = resultsContainer_innerHTML st
   \<and> loadingEl_active (loadSections (Failed err) st) = loadingEl_active st
   \<and> sectionSelect_options (loadSections (Failed err) st) = sectionSelect_options st
   \<and> fetched_urls (loadSections outcome'' st) = fetched_urls st @ [ascii ''/api/sections'']
   \<and> loadSections_viewer (Failed err) vs =
      vs\<lparr>requests := requests vs @ [ascii ''/api/sections''],
         console_errors := console_errors vs @ [(ascii ''Failed to load sections:'', err)]\<rparr>
   \<and> alerts (loadSections_viewer (Failed err) vs) = alerts vs
   \<and> timetable_innerHTML (loadSections_viewer (Failed err) vs) = timetable_innerHTML vs
   \<and> loading_hidden (loadSections_viewer (Failed err) vs) = loading_hidden vs
   \<and> viewer_sectionSelect_options (loadSections_viewer (Failed err) vs) =
      viewer_sectionSelect_options vs
   \<and> requests (loadSections_viewer outcome'' vs) = requests vs @ [ascii ''/api/sections'']
   \<and> sectionSelect_options (loadSections (Loaded sections) st) =
      sectionSelect_options st @ map section_option sections
   \<and> viewer_sectionSelect_options (loadSections_viewer (Loaded sections) vs) =
      viewer_sectionSelect_options vs @ map section_option sections
   \<and> section_option s = (section_to_string s, ascii ''Section '' @ section_to_string s)"
proof -
  have sec_ok:
    "sectionSelect_options (loadSections (Loaded sections) st) =
        sectionSelect_options st @ map section_option sections
     \<and> viewer_sectionSelect_options (loadSections_viewer (Loaded sections) vs) =
        viewer_sectionSelect_options vs @ map section_option sections
     \<and> section_option s = (section_to_string s, ascii ''Section '' @ section_to_string s)"
    by (simp add: loadSections_def loadSections_viewer_def Let_def section_option_def)
  have sec_cmp:
    "loadSections (Failed err) st =
        st\<lparr>fetched_urls := fetched_urls st @ [ascii ''/api/sections''],
           console_log := console_log st @ [(ascii ''Failed to load sections:'', err)]\<rparr>
     \<and> resultsContainer_innerHTML (loadSections (Failed err) st) = resultsContainer_innerHTML st
     \<and> loadingEl_active (loadSections (Failed err) st) = loadingEl_active st
     \<and> sectionSelect_options (loadSections (Failed err) st) = sectionSelect_options st"
    by (simp add: loadSections_def Let_def)
  have sec_cmp_all:
    "fetched_urls (loadSections outcome'' st) = fetched_urls st @ [ascii ''/api/sections'']"
    by (cases outcome'') (simp_all add: loadSections_def Let_def)
  have sec_tt:
    "loadSections_viewer (Failed err) vs =
        vs\<lparr>requests := requests vs @ [ascii ''/api/sections''],
           console_errors := console_errors vs @ [(ascii ''Failed to load sections:'', err)]\<rparr>
     \<and> alerts (loadSections_viewer (Failed err) vs) = alerts vs
     \<and> timetable_innerHTML (loadSections_viewer (Failed err) vs) = timetable_innerHTML vs
     \<and> loading_hidden (loadSections_viewer (Failed err) vs) = loading_hidden vs
     \<and> viewer_sectionSelect_options (loadSections_viewer (Failed err) vs) =
        viewer_sectionSelect_options vs"
    by (simp add: loadSections_viewer_def Let_def)
  have sec_tt_all:
    "requests (loadSections_viewer outcome'' vs) = requests vs @ [ascii ''/api/sections'']"
    by (cases outcome'') (simp_all add: loadSections_viewer_def Let_def)
  have cmp_fail:
    "console_log (loadSharedLecturers delay_text sectionId (Failed err) st) =
        console_log st @ [(ascii ''Failed to load data:'', err)]
     \<and> resultsContainer_innerHTML (loadSharedLecturers delay_text sectionId (Failed err) st) =
        load_failed_html
     \<and> resultsContainer_display (loadSharedLecturers delay_text sectionId (Failed err) st) =
        ascii ''flex''"
    by (simp add: loadSharedLecturers_def Let_def showLoading_def hideLoading_def)
  have render_keeps: "loadingEl_active (renderResults delay_text d s) = loadingEl_active s
      \<and> fetched_urls (renderResults delay_text d s) = fetched_urls s" for d s
    by (simp add: renderResults_def showEmptyState_def split: option.splits)
  have cmp_all: "\<not> loadingEl_active (loadSharedLecturers delay_text sectionId outcome st)
     \<and> fetched_urls (loadSharedLecturers delay_text sectionId outcome st) =
        fetched_urls st @ [ascii ''/api/shared-lecturers/'' @ sectionId]"
    by (cases outcome)
       (simp_all add: loadSharedLecturers_def Let_def showLoading_def hideLoading_def render_keeps)
  have tt_fail:
    "console_errors (loadTimetable section_arg (Failed err) vs) =
        console_errors vs @ [(ascii ''Failed to load timetable:'', err)]
     \<and> alerts (loadTimetable section_arg (Failed err) vs) =
        alerts vs @ [ascii ''Failed to load timetable: '' @ err]
     \<and> timetable_innerHTML (loadTimetable section_arg (Failed err) vs) = timetable_innerHTML vs"
    by (simp add: loadTimetable_def Let_def showLoading_viewer_def hideLoading_viewer_def
        loadTimetable_catch_def)
  have tt_all: "loading_hidden (loadTimetable section_arg outcome' vs)
     \<and> requests (loadTimetable section_arg outcome' vs) =
        requests vs @ [ascii ''/api/timetable/'' @ section_arg]"
  proof (cases outcome')
    case (Failed m)
    then show ?thesis
      by (simp add: loadTimetable_def Let_def showLoading_viewer_def hideLoading_viewer_def
          loadTimetable_catch_def)
  next
    case (Loaded r)
    then show ?thesis
      by (cases r)
         (simp_all add: loadTimetable_def Let_def showLoading_viewer_def hideLoading_viewer_def
            loadTimetable_catch_def renderTimetable_def)
  qed
  have up_fail:
    "console_errors (uploadAndParse (Failed err) vs) =
        console_errors vs @ [(ascii ''Failed to parse uploaded file:'', err)]
     \<and> alerts (uploadAndParse (Failed err) vs) =
        alerts vs @ [ascii ''Failed to parse uploaded file: '' @ err]"
    by (simp add: uploadAndParse_def Let_def showLoading_viewer_def hideLoading_viewer_def
        uploadAndParse_catch_def)
  have up_all: "loading_hidden (uploadAndParse outcome' vs)
     \<and> requests (uploadAndParse outcome' vs) = requests vs @ [ascii ''/api/upload'']"
  proof (cases outcome')
    case (Failed m)
    then show ?thesis
      by (simp add: uploadAndParse_def Let_def showLoading_viewer_def hideLoading_viewer_def
          uploadAndParse_catch_def)
  next
    case (Loaded r)
    then show ?thesis
      by (cases r)
         (simp_all add: uploadAndParse_def Let_def showLoading_viewer_def hideLoading_viewer_def
            uploadAndParse_catch_def renderTimetable_def)
  qed
  have loaders:
    "console_log (loadSharedLecturers delay_text sectionId (Failed err) st) =
        console_log st @ [(ascii ''Failed to load data:'', err)]
     \<and> resultsContainer_innerHTML (loadSharedLecturers delay_text sectionId (Failed err) st) =
        load_failed_html
     \<and> sublist (ascii ''Failed to load data. Please try again.'') load_failed_html
     \<and> resultsContainer_display (loadSharedLecturers delay_text sectionId (Failed err) st) =
        ascii ''flex''
     \<and> \<not> loadingEl_active (loadSharedLecturers delay_text sectionId outcome st)
     \<and> fetched_urls (loadSharedLecturers delay_text sectionId outcome st) =
        fetched_urls st @ [ascii ''/api/shared-lecturers/'' @ sectionId]
     \<and> console_errors (loadTimetable section_arg (Failed err) vs) =
        console_errors vs @ [(ascii ''Failed to load timetable:'', err)]
     \<and> alerts (loadTimetable section_arg (Failed err) vs) =
        alerts vs @ [ascii ''Failed to load timetable: '' @ err]
     \<and> timetable_innerHTML (loadTimetable section_arg (Failed err) vs) = timetable_innerHTML vs
     \<and> loading_hidden (loadTimetable section_arg outcome' vs)
     \<and> requests (loadTimetable section_arg outcome' vs) =
        requests vs @ [ascii ''/api/timetable/'' @ section_arg]
     \<and> console_errors (uploadAndParse (Failed err) vs) =
        console_errors vs @ [(ascii ''Failed to parse uploaded file:'', err)]
     \<and> alerts (uploadAndParse (Failed err) vs) =
        alerts vs @ [ascii ''Failed to parse uploaded file: '' @ err]
     \<and> loading_hidden (uploadAndParse outcome' vs)
     \<and> requests (uploadAndParse outcome' vs) = requests vs @ [ascii ''/api/upload'']"
    using cmp_fail cmp_all tt_fail tt_all up_fail up_all load_failed_message by blast
  show ?thesis
    using loaders sec_cmp sec_cmp_all sec_tt sec_tt_all sec_ok by (intro conjI) blast+
qed

theorem fetch_failure_handling_counterexample:
  "alerts (loadSections_viewer (Failed (ascii ''Failed to fetch'')) example_viewer) = []
   \<and> timetable_innerHTML (loadSections_viewer (Failed (ascii ''Failed to fetch'')) example_viewer) = []
   \<and> console_errors (loadSections_viewer (Failed (ascii ''Failed to fetch'')) example_viewer) =
      [(ascii ''Failed to load sections:'', ascii ''Failed to fetch'')]
   \<and> resultsContainer_innerHTML (loadSections (Failed (ascii ''Failed to fetch'')) example_page) = []
   \<and> console_log (loadSections (Failed (ascii ''Failed to fetch'')) example_page) =
      [(ascii ''Failed to load sections:'', ascii ''Failed to fetch'')]
   \<and> load_failed_html \<noteq> []"
proof -
  have "load_failed_html \<noteq> []" by (simp add: load_failed_html_def ascii_def)
  then show ?thesis
    by (simp add: loadSections_viewer_def loadSections_def Let_def example_viewer_def
        example_page_def)
qed


section \<open>Double-precision rounding\<close>

lemma ilog2_bounds:
  assumes "0 < x"
  shows "2 powi ilog2 x \<le> x" and "x < 2 powi (ilog2 x + 1)"
proof -
  have "2 powi ilog2 x \<le> x \<and> x < 2 powi (ilog2 x + 1)"
  proof (cases "1 \<le> x")
    case True
    define n where "n = nat \<lfloor>x\<rfloor>"
    have n: "0 < n" "of_nat n \<le> x" "x < of_nat n + 1"
      using True by (auto simp: n_def le_nat_floor) linarith+
    define k where "k = floorlog 2 n"
    have b: "2 ^ (k - 1) \<le> n" "n < 2 ^ k"
      using floorlog_bounds [of n 2] n(1) by (auto simp: k_def)
    have k0: "0 < k" using b(2) n(1) by (cases k) auto
    have e: "ilog2 x = int k - 1" using True by (simp add: ilog2_def n_def k_def)
    have p1: "(2::rat) powi (int k - 1) = 2 ^ (k - 1)"
      using k0 by (simp add: power_int_def nat_diff_distrib' of_nat_diff)
    have p2: "(2::rat) powi (int k - 1 + 1) = 2 ^ k" by simp
    have lo: "(2::rat) ^ (k - 1) \<le> of_nat n"
      using b(1) by (metis of_nat_le_iff of_nat_numeral of_nat_power)
    have up: "(of_nat n :: rat) + 1 \<le> 2 ^ k"
    proof -
      have "n + 1 \<le> 2 ^ k" using b(2) by simp
      then have "(of_nat (n + 1) :: rat) \<le> of_nat (2 ^ k)" by (simp only: of_nat_le_iff)
      then show ?thesis by simp
    qed
    have "(2::rat) ^ (k - 1) \<le> x" using lo n(2) by (rule order_trans)
    moreover have "x < 2 ^ k" using n(3) up by (rule less_le_trans)
    ultimately show ?thesis unfolding e p1 p2 by simp
  next
    case False
    define y where "y = 1 / x"
    have y: "1 < y" using False assms by (simp add: y_def)
    define c where "c = \<lceil>y\<rceil>"
    have c: "2 \<le> c" "y \<le> of_int c" "of_int c - 1 < y"
      using y by (auto simp: c_def) linarith+
    define n where "n = nat (c - 1)"
    have n: "0 < n" "int n = c - 1" using c(1) by (auto simp: n_def)
    define m where "m = floorlog 2 n"
    have b: "2 ^ (m - 1) \<le> n" "n < 2 ^ m"
      using floorlog_bounds [of n 2] n(1) by (auto simp: m_def)
    have m0: "0 < m" using b(2) n(1) by (cases m) auto
    have e: "ilog2 x = - int m" using False by (simp add: ilog2_def n_def m_def c_def y_def)
    have nr: "(of_nat n :: rat) = of_int c - 1"
      using n(2) by (metis of_int_of_nat_eq of_int_diff of_int_1)
    have up: "y \<le> 2 ^ m"
    proof -
      have "n + 1 \<le> 2 ^ m" using b(2) by simp
      then have "(of_nat (n + 1) :: rat) \<le> of_nat (2 ^ m)" by (simp only: of_nat_le_iff)
      then have "(of_nat n :: rat) + 1 \<le> 2 ^ m" by simp
      then have "(of_int c :: rat) \<le> 2 ^ m" unfolding nr by linarith
      with c(2) show ?thesis by (rule order_trans)
    qed
    have lo: "2 ^ (m - 1) < y"
    proof -
      have "(2::rat) ^ (m - 1) \<le> of_nat n"
        using b(1) by (metis of_nat_le_iff of_nat_numeral of_nat_power)
      then have "(2::rat) ^ (m - 1) \<le> of_int c - 1" unfolding nr .
      then show ?thesis using c(3) by (rule le_less_trans)
    qed
    have x: "x = 1 / y" using assms by (simp add: y_def)
    have p1: "(2::rat) powi (- int m) = 1 / 2 ^ m"
      by (simp add: power_int_minus_divide)
    have p2: "(2::rat) powi (- int m + 1) = 1 / 2 ^ (m - 1)"
    proof -
      have "- int m + 1 = - int (m - 1)" using m0 by simp
      then show ?thesis by (simp only: power_int_minus_divide power_int_of_nat)
    qed
    have "1 / 2 ^ m \<le> 1 / y" using up y by (simp add: frac_le)
    moreover have "1 / y < 1 / 2 ^ (m - 1)" using lo by (simp add: frac_less2)
    ultimately show ?thesis using e p1 p2 x by simp
  qed
  then show "2 powi ilog2 x \<le> x" and "x < 2 powi (ilog2 x + 1)" by simp_all
qed


lemma rhe_cases: "round_half_even y = \<lfloor>y\<rfloor> \<or> round_half_even y = \<lfloor>y\<rfloor> + 1"
  by (simp add: round_half_even_def Let_def)

lemma rhe_error: "\<bar>of_int (round_half_even y) - y\<bar> \<le> 1 / 2"
proof -
  have "of_int \<lfloor>y\<rfloor> \<le> y" "y < of_int \<lfloor>y\<rfloor> + 1" by linarith+
  then show ?thesis
    by (auto simp: round_half_even_def Let_def abs_le_iff)
qed

lemma rhe_of_int: "round_half_even (of_int n) = n"
  by (simp add: round_half_even_def)

lemma rhe_mono:
  assumes "y \<le> z"
  shows "round_half_even y \<le> round_half_even z"
proof (cases "\<lfloor>y\<rfloor> < \<lfloor>z\<rfloor>")
  case True
  have "round_half_even y \<le> \<lfloor>y\<rfloor> + 1" using rhe_cases [of y] by auto
  moreover have "\<lfloor>z\<rfloor> \<le> round_half_even z" using rhe_cases [of z] by auto
  ultimately show ?thesis using True by linarith
next
  case False
  moreover have "\<lfloor>y\<rfloor> \<le> \<lfloor>z\<rfloor>" using assms by (rule floor_mono)
  ultimately have eq: "\<lfloor>y\<rfloor> = \<lfloor>z\<rfloor>" by simp
  then have "y - of_int \<lfloor>y\<rfloor> \<le> z - of_int \<lfloor>z\<rfloor>" using assms by simp
  then show ?thesis
    by (auto simp: round_half_even_def Let_def eq)
qed

lemma rhe_ge_int: "of_int n \<le> y \<Longrightarrow> n \<le> round_half_even y"
  using rhe_mono [of "of_int n" y] by (simp add: rhe_of_int)

lemma rhe_le_int: "y \<le> of_int n \<Longrightarrow> round_half_even y \<le> n"
  using rhe_mono [of y "of_int n"] by (simp add: rhe_of_int)

lemma two_powi_pos: "0 < (2::rat) powi e"
  by simp

lemma pow2_shift: "(2::rat) powi (e + int k) = 2 powi e * 2 ^ k"
  by (simp add: power_int_add)

lemma pow2_split:
  "(2::rat) powi e = 2 powi (e - 52) * 2 ^ 52" "(2::rat) powi (e + 1) = 2 powi (e - 52) * 2 ^ 53"
proof -
  have "(2::rat) powi ((e - 52) + int 52) = 2 powi (e - 52) * 2 ^ 52" by (rule pow2_shift)
  then show "(2::rat) powi e = 2 powi (e - 52) * 2 ^ 52" by simp
  have "(2::rat) powi ((e - 52) + int 53) = 2 powi (e - 52) * 2 ^ 53" by (rule pow2_shift)
  moreover have "(e - 52) + int 53 = e + 1" by simp
  ultimately show "(2::rat) powi (e + 1) = 2 powi (e - 52) * 2 ^ 53" by (simp only:)
qed

lemma pow2_less_D: "(2::rat) powi a < 2 powi b \<Longrightarrow> a < b"
proof (rule ccontr)
  assume l: "(2::rat) powi a < 2 powi b" and "\<not> a < b"
  then have "b \<le> a" by simp
  then have "(2::rat) powi b \<le> 2 powi a" by (intro power_int_increasing) simp_all
  with l show False by simp
qed

lemma fl_pos:
  "0 < x \<Longrightarrow>
   fl x = of_int (round_half_even (x / 2 powi (ilog2 x - 52))) * 2 powi (ilog2 x - 52)"
  by (simp add: fl_def Let_def)

lemma scaled_range:
  assumes "0 < x"
  shows "2 ^ 52 \<le> x / 2 powi (ilog2 x - 52)" and "x / 2 powi (ilog2 x - 52) < 2 ^ 53"
proof -
  have p: "0 < (2::rat) powi (ilog2 x - 52)" by simp
  have "2 powi (ilog2 x - 52) * 2 ^ 52 \<le> x"
    using ilog2_bounds(1) [OF assms] unfolding pow2_split(1) [of "ilog2 x"] .
  then have "2 ^ 52 * 2 powi (ilog2 x - 52) \<le> x" by (simp only: mult.commute)
  then show "2 ^ 52 \<le> x / 2 powi (ilog2 x - 52)"
    using p by (simp only: pos_le_divide_eq)
  have "x < 2 powi (ilog2 x - 52) * 2 ^ 53"
    using ilog2_bounds(2) [OF assms] unfolding pow2_split(2) [of "ilog2 x"] .
  then have "x < 2 ^ 53 * 2 powi (ilog2 x - 52)" by (simp only: mult.commute)
  then show "x / 2 powi (ilog2 x - 52) < 2 ^ 53"
    using p by (simp only: pos_divide_less_eq)
qed

lemma mantissa_range:
  assumes "0 < x"
  shows "2 ^ 52 \<le> round_half_even (x / 2 powi (ilog2 x - 52))"
    and "round_half_even (x / 2 powi (ilog2 x - 52)) \<le> 2 ^ 53"
proof -
  have "(of_int (2 ^ 52) :: rat) \<le> x / 2 powi (ilog2 x - 52)"
    using scaled_range(1) [OF assms] by simp
  then show "2 ^ 52 \<le> round_half_even (x / 2 powi (ilog2 x - 52))" by (rule rhe_ge_int)
  have "x / 2 powi (ilog2 x - 52) \<le> (of_int (2 ^ 53) :: rat)"
    using scaled_range(2) [OF assms] by simp
  then show "round_half_even (x / 2 powi (ilog2 x - 52)) \<le> 2 ^ 53" by (rule rhe_le_int)
qed

lemma fl_binade:
  assumes "0 < x"
  shows "2 powi ilog2 x \<le> fl x" and "fl x \<le> 2 powi (ilog2 x + 1)"
proof -
  let ?e = "ilog2 x - 52"
  let ?m = "round_half_even (x / 2 powi ?e)"
  have s: "(2::rat) powi ilog2 x = 2 ^ 52 * 2 powi ?e"
    using pow2_split(1) [of "ilog2 x"] by (simp only: mult.commute)
  have s1: "(2::rat) powi (ilog2 x + 1) = 2 ^ 53 * 2 powi ?e"
    using pow2_split(2) [of "ilog2 x"] by (simp only: mult.commute)
  have m1: "(2::rat) ^ 52 \<le> of_int ?m"
    using mantissa_range(1) [OF assms] by (metis of_int_le_iff of_int_numeral of_int_power)
  have m2: "(of_int ?m :: rat) \<le> 2 ^ 53"
    using mantissa_range(2) [OF assms] by (metis of_int_le_iff of_int_numeral of_int_power)
  show "2 powi ilog2 x \<le> fl x"
    unfolding fl_pos [OF assms] s using m1 by (intro mult_right_mono) simp_all
  show "fl x \<le> 2 powi (ilog2 x + 1)"
    unfolding fl_pos [OF assms] s1 using m2 by (intro mult_right_mono) simp_all
qed

lemma fl_pos_pos: "0 < x \<Longrightarrow> 0 < fl x"
  using fl_binade(1) [of x] two_powi_pos [of "ilog2 x"] by linarith

lemma ilog2_mono:
  assumes "0 < x" and "x \<le> y"
  shows "ilog2 x \<le> ilog2 y"
proof -
  have "0 < y" using assms by linarith
  have "(2::rat) powi ilog2 x \<le> x" using assms(1) by (rule ilog2_bounds)
  also have "x \<le> y" by fact
  also have "y < 2 powi (ilog2 y + 1)" using \<open>0 < y\<close> by (rule ilog2_bounds)
  finally have "(2::rat) powi ilog2 x < 2 powi (ilog2 y + 1)" .
  then have "ilog2 x < ilog2 y + 1" by (rule pow2_less_D)
  then show ?thesis by simp
qed

lemma fl_mono:
  assumes "0 < x" and "x \<le> y"
  shows "fl x \<le> fl y"
proof -
  have y: "0 < y" using assms by linarith
  show ?thesis
  proof (cases "ilog2 x = ilog2 y")
    case True
    have "x / 2 powi (ilog2 y - 52) \<le> y / 2 powi (ilog2 y - 52)"
      using assms(2) by (simp add: divide_right_mono)
    then have "round_half_even (x / 2 powi (ilog2 y - 52)) \<le> round_half_even (y / 2 powi (ilog2 y - 52))"
      by (rule rhe_mono)
    then have "(of_int (round_half_even (x / 2 powi (ilog2 y - 52))) :: rat)
        \<le> of_int (round_half_even (y / 2 powi (ilog2 y - 52)))"
      by (simp only: of_int_le_iff)
    then show ?thesis
      unfolding fl_pos [OF assms(1)] fl_pos [OF y] True
      by (intro mult_right_mono) simp_all
  next
    case False
    with ilog2_mono [OF assms] have "ilog2 x + 1 \<le> ilog2 y" by simp
    then have "(2::rat) powi (ilog2 x + 1) \<le> 2 powi ilog2 y"
      by (simp add: power_int_increasing)
    with fl_binade(2) [OF assms(1)] fl_binade(1) [OF y] show ?thesis by linarith
  qed
qed

lemma fl_error_pos:
  assumes "0 < x"
  shows "\<bar>fl x - x\<bar> \<le> x / 2 ^ 53"
proof -
  let ?e = "ilog2 x - 52"
  let ?s = "x / 2 powi ?e"
  have p: "0 < (2::rat) powi ?e" by simp
  have x: "x = ?s * 2 powi ?e" by simp
  have "fl x - x = (of_int (round_half_even ?s) - ?s) * 2 powi ?e"
    unfolding fl_pos [OF assms] by (simp add: algebra_simps)
  then have "\<bar>fl x - x\<bar> = \<bar>of_int (round_half_even ?s) - ?s\<bar> * 2 powi ?e"
    by (simp add: abs_mult)
  also have "\<dots> \<le> (1 / 2) * 2 powi ?e"
    using rhe_error [of ?s] by (intro mult_right_mono) simp_all
  also have "\<dots> \<le> (?s / 2 ^ 53) * 2 powi ?e"
  proof (rule mult_right_mono)
    have "(2::rat) ^ 52 / 2 ^ 53 \<le> ?s / 2 ^ 53"
      using scaled_range(1) [OF assms] by (rule divide_right_mono) simp
    moreover have "(2::rat) ^ 52 / 2 ^ 53 = 1 / 2" by simp
    ultimately show "1 / 2 \<le> ?s / 2 ^ 53" by (simp only:)
    show "0 \<le> (2::rat) powi ?e" by simp
  qed
  also have "\<dots> = x / 2 ^ 53" by simp
  finally show ?thesis .
qed

lemma fl_neg: "fl (- x) = - fl x"
  by (simp add: fl_def Let_def)

lemma fl_error: "\<bar>fl x - x\<bar> \<le> \<bar>x\<bar> / 2 ^ 53"
proof -
  consider "x = 0" | "0 < x" | "x < 0" by linarith
  then show ?thesis
  proof cases
    case 1
    then show ?thesis by (simp add: fl_def)
  next
    case 2
    then show ?thesis using fl_error_pos [of x] by simp
  next
    case 3
    then have "0 < - x" by simp
    from fl_error_pos [OF this] have "\<bar>- fl x + x\<bar> \<le> - x / 2 ^ 53"
      by (simp add: fl_neg)
    moreover have "\<bar>- fl x + x\<bar> = \<bar>fl x - x\<bar>" by (simp add: abs_minus_commute)
    ultimately show ?thesis using 3 by simp
  qed
qed

lemma fl_of_nat:
  assumes "0 < n" and "n < 2 ^ 53"
  shows "fl (of_nat n) = of_nat n"
proof -
  let ?x = "of_nat n :: rat"
  have x: "0 < ?x" using assms(1) by simp
  let ?e = "ilog2 ?x - 52"
  have "(2::rat) powi ilog2 ?x \<le> ?x" using x by (rule ilog2_bounds)
  also have "?x < 2 ^ 53"
    using assms(2) by (metis of_nat_less_iff of_nat_numeral of_nat_power)
  finally have "(2::rat) powi ilog2 ?x < 2 powi 53" by simp
  then have "ilog2 ?x < 53" by (rule pow2_less_D)
  then have e: "?e \<le> 0" by simp
  define k where "k = nat (- ?e)"
  have ek: "?e = - int k" using e by (simp add: k_def)
  have "?x / 2 powi ?e = ?x * 2 ^ k"
    unfolding ek by (simp add: power_int_minus_divide)
  also have "\<dots> = of_int (int n * 2 ^ k)" by simp
  finally have s: "?x / 2 powi ?e = of_int (int n * 2 ^ k)" .
  have "fl ?x = of_int (int n * 2 ^ k) * 2 powi ?e"
    unfolding fl_pos [OF x] s rhe_of_int ..
  also have "\<dots> = ?x * (2 ^ k * 2 powi (- int k))"
    unfolding ek by simp
  also have "\<dots> = ?x"
    by (simp add: power_int_minus_divide)
  finally show ?thesis .
qed


lemma targetRatio_val: "targetRatio = 2001599834386887 / 1125899906842624"
  unfolding targetRatio_def by code_simp

lemma tolerance_val: "fl (1 / 100) = 5764607523034235 / 576460752303423488"
  by code_simp

lemma fl_targetRatio: "fl targetRatio = targetRatio"
  unfolding targetRatio_def by code_simp

lemma fl_exact_pos:
  assumes "0 < n" and "n < 2 ^ 53"
  shows "fl (of_nat n * 2 powi j) = of_nat n * 2 powi j"
proof -
  define x :: rat where "x = of_nat n * 2 powi j"
  define e where "e = ilog2 x - 52"
  define p :: rat where "p = 2 powi e"
  have x: "0 < x" using assms(1) by (simp add: x_def)
  have p: "0 < p" by (simp add: p_def)
  have n53: "(of_nat n :: rat) < 2 ^ 53"
    using assms(2) by (metis of_nat_less_iff of_nat_numeral of_nat_power)
  have "(2::rat) powi ilog2 x \<le> x" using x by (rule ilog2_bounds)
  also have "x < 2 ^ 53 * 2 powi j"
    unfolding x_def using n53 by (intro mult_strict_right_mono) simp_all
  also have "\<dots> = 2 powi (j + int 53)"
    by (simp only: pow2_shift mult.commute)
  finally have "ilog2 x < j + int 53" by (rule pow2_less_D)
  then have ej: "e \<le> j" by (simp add: e_def)
  define k where "k = nat (j - e)"
  have jk: "j = e + int k" using ej by (simp add: k_def)
  have "(2::rat) powi j = p * 2 ^ k"
    unfolding p_def by (subst jk) (rule pow2_shift)
  then have xs: "x = of_int (int n * 2 ^ k) * p" by (simp add: x_def)
  then have s: "x / p = of_int (int n * 2 ^ k)" using p by simp
  have "fl x = of_int (round_half_even (x / p)) * p"
    unfolding p_def e_def by (rule fl_pos [OF x])
  also have "\<dots> = of_int (int n * 2 ^ k) * p"
    unfolding s rhe_of_int ..
  also have "\<dots> = x" using xs by simp
  finally show ?thesis unfolding x_def .
qed

lemma fl_half_nat:
  assumes "n < 2 ^ 53"
  shows "fl (of_nat n / 2) = of_nat n / 2"
proof (cases "n = 0")
  case True
  then show ?thesis by (simp add: fl_def)
next
  case False
  then have "0 < n" by simp
  from fl_exact_pos [OF this assms, of "-1"] show ?thesis by simp
qed

lemma Math_round_half_nat: "Math_round (of_nat k / 2) = (int k + 1) div 2"
proof -
  have "(of_nat k / 2 + 1 / 2 :: rat) = of_int (int k + 1) / of_int 2" by simp
  then show ?thesis
    unfolding Math_round_def by (simp only: floor_divide_of_int_eq)
qed

lemma Math_round_ge: "of_int n \<le> y \<Longrightarrow> n \<le> Math_round y"
  unfolding Math_round_def by (simp add: le_floor_iff)

text \<open>The padded dimension is the nearest integer to the exact 16:9 partner.\<close>

lemma round_height:
  assumes "0 < w" and "w < 2 ^ 32"
  shows "\<bar>16 * Math_round (fl (of_nat w / targetRatio)) - 9 * int w\<bar> \<le> 8"
proof -
  define x :: rat where "x = of_nat w"
  define q :: rat where "q = x * (1125899906842624 / 2001599834386887)"
  define y where "y = fl q"
  define n where "n = Math_round y"
  have q: "of_nat w / targetRatio = q" by (simp add: targetRatio_val q_def x_def)
  have x0: "0 < x" using assms(1) by (simp add: x_def)
  have "x < 2 ^ 32"
    unfolding x_def using assms(2) by (metis of_nat_less_iff of_nat_numeral of_nat_power)
  then have x32: "x < 4294967296" by simp
  have q0: "0 < q" using x0 by (simp add: q_def)
  have "\<bar>y - q\<bar> \<le> \<bar>q\<bar> / 2 ^ 53" unfolding y_def by (rule fl_error)
  then have err: "\<bar>y - q\<bar> \<le> q / 9007199254740992" using q0 by simp
  then have e1: "y - q \<le> q / 9007199254740992" and e2: "q - y \<le> q / 9007199254740992"
    by linarith+
  have yb: "of_int n \<le> y + 1 / 2" "y + 1 / 2 < of_int n + 1"
    unfolding n_def Math_round_def by linarith+
  have nx: "(of_int (9 * int w) :: rat) = 9 * x" by (simp add: x_def)
  have "16 * of_int n < 9 * x + 9"
    using e1 yb(1) x0 x32 unfolding q_def by linarith
  then have up: "(of_int (16 * n) :: rat) < of_int (9 * int w + 9)"
    using nx by simp
  have "9 * x - 9 < 16 * of_int n"
    using e2 yb(2) x0 x32 unfolding q_def by linarith
  then have lo: "(of_int (9 * int w - 9) :: rat) < of_int (16 * n)"
    using nx by simp
  from up lo have "16 * n < 9 * int w + 9" "9 * int w - 9 < 16 * n"
    by (simp_all only: of_int_less_iff)
  then show ?thesis unfolding q n_def y_def by linarith
qed


lemma round_width:
  assumes "0 < h" and "h < 2 ^ 32"
  shows "\<bar>9 * Math_round (fl (of_nat h * targetRatio)) - 16 * int h\<bar> \<le> 4"
proof -
  define x :: rat where "x = of_nat h"
  define q :: rat where "q = x * (2001599834386887 / 1125899906842624)"
  define y where "y = fl q"
  define n where "n = Math_round y"
  have q: "of_nat h * targetRatio = q" by (simp add: targetRatio_val q_def x_def)
  have x0: "0 < x" using assms(1) by (simp add: x_def)
  have "x < 2 ^ 32"
    unfolding x_def using assms(2) by (metis of_nat_less_iff of_nat_numeral of_nat_power)
  then have x32: "x < 4294967296" by simp
  have q0: "0 < q" using x0 by (simp add: q_def)
  have "\<bar>y - q\<bar> \<le> \<bar>q\<bar> / 2 ^ 53" unfolding y_def by (rule fl_error)
  then have err: "\<bar>y - q\<bar> \<le> q / 9007199254740992" using q0 by simp
  then have e1: "y - q \<le> q / 9007199254740992" and e2: "q - y \<le> q / 9007199254740992"
    by linarith+
  have yb: "of_int n \<le> y + 1 / 2" "y + 1 / 2 < of_int n + 1"
    unfolding n_def Math_round_def by linarith+
  have nx: "(of_int (16 * int h) :: rat) = 16 * x" by (simp add: x_def)
  have "9 * of_int n < 16 * x + 5"
    using e1 yb(1) x0 x32 unfolding q_def by linarith
  then have up: "(of_int (9 * n) :: rat) < of_int (16 * int h + 5)"
    using nx by simp
  have "16 * x - 5 < 9 * of_int n"
    using e2 yb(2) x0 x32 unfolding q_def by linarith
  then have lo: "(of_int (16 * int h - 5) :: rat) < of_int (9 * n)"
    using nx by simp
  from up lo have "9 * n < 16 * int h + 5" "16 * int h - 5 < 9 * n"
    by (simp_all only: of_int_less_iff)
  then show ?thesis unfolding q n_def y_def by linarith
qed

lemma targetRatio_pos: "0 < targetRatio"
  by (simp add: targetRatio_val)

lemma fl_nat: "n < 2 ^ 53 \<Longrightarrow> fl (of_nat n) = of_nat n"
  using fl_of_nat [of n] by (cases "n = 0") (simp_all add: fl_def)

text \<open>Comparing the rounded ratio with the target decides the exact comparison.\<close>

lemma ratio_gt_exact:
  assumes "0 < (r::rat)" and "targetRatio < fl r"
  shows "targetRatio < r"
proof (rule ccontr)
  assume "\<not> targetRatio < r"
  then have "r \<le> targetRatio" by simp
  with assms(1) have "fl r \<le> fl targetRatio" by (rule fl_mono)
  with assms(2) show False by (simp add: fl_targetRatio)
qed

lemma ratio_lt_exact:
  assumes "0 < (r::rat)" and "fl r < targetRatio"
  shows "r < targetRatio"
proof (rule ccontr)
  assume "\<not> r < targetRatio"
  then have "targetRatio \<le> r" by simp
  with targetRatio_pos have "fl targetRatio \<le> fl r" by (rule fl_mono)
  with assms(2) show False by (simp add: fl_targetRatio)
qed

lemma wider_height_ge:
  assumes "0 < w" and "0 < h" and "h < 2 ^ 53"
    and "targetRatio < fl (of_nat w / of_nat h)"
  shows "int h \<le> Math_round (fl (of_nat w / targetRatio))"
proof -
  have h0: "(0::rat) < of_nat h" using assms(2) by simp
  have "(0::rat) < of_nat w / of_nat h" using assms(1,2) by simp
  from ratio_gt_exact [OF this assms(4)] have "targetRatio * of_nat h < of_nat w"
    using h0 by (simp add: pos_less_divide_eq)
  then have "of_nat h < of_nat w / targetRatio"
    using targetRatio_pos by (simp add: pos_less_divide_eq mult.commute)
  then have "of_nat h \<le> of_nat w / targetRatio" by simp
  with h0 have "fl (of_nat h) \<le> fl (of_nat w / targetRatio)" by (rule fl_mono)
  then have "(of_int (int h) :: rat) \<le> fl (of_nat w / targetRatio)"
    using assms(3) by (simp add: fl_nat)
  then show ?thesis by (rule Math_round_ge)
qed

lemma taller_width_ge:
  assumes "0 < w" and "0 < h" and "w < 2 ^ 53"
    and "fl (of_nat w / of_nat h) < targetRatio"
  shows "int w \<le> Math_round (fl (of_nat h * targetRatio))"
proof -
  have h0: "(0::rat) < of_nat h" using assms(2) by simp
  have w0: "(0::rat) < of_nat w" using assms(1) by simp
  have "(0::rat) < of_nat w / of_nat h" using assms(1,2) by simp
  from ratio_lt_exact [OF this assms(4)] have "of_nat w < targetRatio * of_nat h"
    using h0 by (simp add: pos_divide_less_eq)
  then have "of_nat w \<le> of_nat h * targetRatio" by (simp add: mult.commute)
  with w0 have "fl (of_nat w) \<le> fl (of_nat h * targetRatio)" by (rule fl_mono)
  then have "(of_int (int w) :: rat) \<le> fl (of_nat h * targetRatio)"
    using assms(3) by (simp add: fl_nat)
  then show ?thesis by (rule Math_round_ge)
qed

text \<open>The tolerance test against the exact ratio.\<close>

lemma abs_rel_bounds:
  fixes u d :: rat
  assumes "\<bar>d - u\<bar> \<le> \<bar>u\<bar> / 9007199254740992"
  shows "\<bar>u\<bar> \<le> \<bar>d\<bar> * (9007199254740992 / 9007199254740991)"
    and "\<bar>d\<bar> \<le> \<bar>u\<bar> * (9007199254740993 / 9007199254740992)"
proof -
  define a where "a = \<bar>u\<bar>"
  define b where "b = \<bar>d\<bar>"
  define e where "e = \<bar>d - u\<bar>"
  have 1: "a \<le> b + e" unfolding a_def b_def e_def by linarith
  have 2: "b \<le> a + e" unfolding a_def b_def e_def by linarith
  have 3: "e \<le> a / 9007199254740992" using assms unfolding a_def e_def .
  show "\<bar>u\<bar> \<le> \<bar>d\<bar> * (9007199254740992 / 9007199254740991)"
    using 1 3 unfolding a_def [symmetric] b_def [symmetric] by linarith
  show "\<bar>d\<bar> \<le> \<bar>u\<bar> * (9007199254740993 / 9007199254740992)"
    using 2 3 unfolding a_def [symmetric] b_def [symmetric] by linarith
qed

lemma tolerance_within:
  assumes "0 < (r::rat)" and "\<bar>fl (fl r - targetRatio)\<bar> \<le> fl (1 / 100)"
  shows "\<bar>r - 16 / 9\<bar> \<le> 1 / 100 + 1 / 10 ^ 9"
proof -
  define c where "c = fl r"
  define u where "u = c - targetRatio"
  define d where "d = fl u"
  have "\<bar>c - r\<bar> \<le> \<bar>r\<bar> / 2 ^ 53" unfolding c_def by (rule fl_error)
  then have e1: "\<bar>c - r\<bar> \<le> r / 9007199254740992" using assms(1) by simp
  have "\<bar>d - u\<bar> \<le> \<bar>u\<bar> / 2 ^ 53" unfolding d_def by (rule fl_error)
  then have e2: "\<bar>d - u\<bar> \<le> \<bar>u\<bar> / 9007199254740992" by simp
  have e3: "\<bar>d\<bar> \<le> 5764607523034235 / 576460752303423488"
    using assms(2) by (simp add: d_def u_def c_def tolerance_val)
  have "\<bar>u\<bar> \<le> 1 / 100 + 1 / 10000000000"
    using abs_rel_bounds(1) [OF e2] e3 by linarith
  then have "\<bar>c - 2001599834386887 / 1125899906842624\<bar> \<le> 1 / 100 + 1 / 10000000000"
    by (simp add: u_def targetRatio_val)
  then have "\<bar>r - 16 / 9\<bar> \<le> 1 / 100 + 1 / 1000000000"
    using e1 assms(1) by linarith
  then show ?thesis by simp
qed

lemma tolerance_pass:
  assumes "0 < (r::rat)" and "\<bar>r - 16 / 9\<bar> \<le> 1 / 100 - 1 / 10 ^ 9"
  shows "\<bar>fl (fl r - targetRatio)\<bar> \<le> fl (1 / 100)"
proof -
  define c where "c = fl r"
  define u where "u = c - targetRatio"
  define d where "d = fl u"
  have "\<bar>c - r\<bar> \<le> \<bar>r\<bar> / 2 ^ 53" unfolding c_def by (rule fl_error)
  then have e1: "\<bar>c - r\<bar> \<le> r / 9007199254740992" using assms(1) by simp
  have "\<bar>d - u\<bar> \<le> \<bar>u\<bar> / 2 ^ 53" unfolding d_def by (rule fl_error)
  then have e2: "\<bar>d - u\<bar> \<le> \<bar>u\<bar> / 9007199254740992" by simp
  have a: "\<bar>r - 16 / 9\<bar> \<le> 1 / 100 - 1 / 1000000000"
    using assms(2) by simp
  have "\<bar>c - 2001599834386887 / 1125899906842624\<bar> \<le> 1 / 100 - 1 / 10000000000"
    using e1 assms(1) a by linarith
  then have "\<bar>u\<bar> \<le> 1 / 100 - 1 / 10000000000"
    by (simp add: u_def targetRatio_val)
  then have "\<bar>d\<bar> \<le> 5764607523034235 / 576460752303423488"
    using abs_rel_bounds(2) [OF e2] by linarith
  then show ?thesis
    by (simp add: d_def u_def c_def tolerance_val)
qed



section \<open>The export pipeline\<close>

lemma tolerance_pos: "0 < fl (1 / 100)"
  by (simp add: tolerance_val)

lemma offset_val:
  assumes "int a \<le> n" and "n < 2 ^ 53"
  shows "Math_round (fl (fl (of_int n - of_nat a) / 2)) = (n - int a + 1) div 2"
proof -
  define k where "k = nat (n - int a)"
  have k: "int k = n - int a" using assms(1) by (simp add: k_def)
  have "int k < 2 ^ 53" using k assms by simp
  then have k53: "k < 2 ^ 53" by (metis of_nat_less_iff of_nat_numeral of_nat_power)
  have "(of_int n - of_nat a :: rat) = of_int (int k)" unfolding k by simp
  then have d: "(of_int n - of_nat a :: rat) = of_nat k" by simp
  show ?thesis
    unfolding d fl_nat [OF k53] fl_half_nat [OF k53] Math_round_half_nat k ..
qed

lemma canvas_dimension_keep:
  "0 \<le> v \<Longrightarrow> v \<le> 2147483647 \<Longrightarrow> canvas_dimension fallback v = nat v"
  by (simp add: canvas_dimension_def)

lemma canvas_dimension_fallback:
  "2147483647 < v \<Longrightarrow> v < 4294967296 \<Longrightarrow> canvas_dimension fallback v = fallback"
  by (simp add: canvas_dimension_def)

lemma ensure_pass:
  "\<not> off_target (currentRatio canvas) \<Longrightarrow>
   ensure_16_9 canvas = \<lparr>finalCanvas = canvas, drawImage_at = None\<rparr>"
  by (simp add: ensure_16_9_def)

lemma ensure_wider:
  assumes "off_target (currentRatio canvas)"
    and "above_target (currentRatio canvas)"
  shows "ensure_16_9 canvas =
     \<lparr>finalCanvas = \<lparr>width = canvas_dimension 300 (int (width canvas)),
                      height = canvas_dimension 150
                        (Math_round (fl (of_nat (width canvas) / targetRatio)))\<rparr>,
      drawImage_at = Some
        (Math_round (fl (fl (of_int (int (width canvas)) - of_nat (width canvas)) / 2)),
         Math_round (fl (fl (of_int (Math_round (fl (of_nat (width canvas) / targetRatio)))
                              - of_nat (height canvas)) / 2)))\<rparr>"
  using assms by (simp add: ensure_16_9_def Let_def)

lemma ensure_taller:
  assumes "off_target (currentRatio canvas)"
    and "\<not> above_target (currentRatio canvas)"
  shows "ensure_16_9 canvas =
     \<lparr>finalCanvas = \<lparr>width = canvas_dimension 300
                        (Math_round (fl (of_nat (height canvas) * targetRatio))),
                      height = canvas_dimension 150 (int (height canvas))\<rparr>,
      drawImage_at = Some
        (Math_round (fl (fl (of_int (Math_round (fl (of_nat (height canvas) * targetRatio)))
                              - of_nat (width canvas)) / 2)),
         Math_round (fl (fl (of_int (int (height canvas)) - of_nat (height canvas)) / 2)))\<rparr>"
  using assms by (simp add: ensure_16_9_def Let_def)

lemma ratio_from_rounding:
  assumes "0 < H" and "\<bar>16 * int H - 9 * int W\<bar> \<le> 8"
  shows "\<bar>of_nat W / of_nat H - 16 / 9\<bar> \<le> (8 / (9 * of_nat H) :: rat)"
proof -
  have H: "(0::rat) < of_nat H" using assms(1) by simp
  have "(of_int \<bar>16 * int H - 9 * int W\<bar> :: rat) \<le> of_int 8"
    using assms(2) by (simp only: of_int_le_iff)
  then have b: "\<bar>9 * of_nat W - 16 * of_nat H\<bar> \<le> (8 :: rat)"
    by (simp add: abs_minus_commute)
  have "(of_nat W / of_nat H - 16 / 9 :: rat) = (9 * of_nat W - 16 * of_nat H) / (9 * of_nat H)"
    using H by (simp add: field_simps)
  then have "\<bar>of_nat W / of_nat H - 16 / 9 :: rat\<bar> =
      \<bar>9 * of_nat W - 16 * of_nat H\<bar> / (9 * of_nat H)"
    using H by (simp add: abs_divide)
  also have "\<dots> \<le> 8 / (9 * of_nat H)"
    using b H by (intro divide_right_mono) simp_all
  finally show ?thesis .
qed

lemma half_up_centered:
  fixes d :: int
  assumes "0 \<le> d"
  shows "0 \<le> (d + 1) div 2" and "(d + 1) div 2 \<le> d" and "\<bar>2 * ((d + 1) div 2) - d\<bar> \<le> 1"
  using assms by presburger+

lemma ensure_example_wide:
  "ensure_16_9 \<lparr>width = 2800, height = 1000\<rparr> =
     \<lparr>finalCanvas = \<lparr>width = 2800, height = 1575\<rparr>, drawImage_at = Some (0, 288)\<rparr>"
proof -
  let ?a = "\<lparr>width = 2800, height = 1000\<rparr> :: Canvas"
  have r: "fl (2800 / 1000) = 6305039478318694 / 2251799813685248" by code_simp
  have cr: "currentRatio ?a = FiniteRatio (6305039478318694 / 2251799813685248)"
    using r by (simp add: currentRatio_def)
  have d: "fl (6305039478318694 / 2251799813685248 - 2001599834386887 / 1125899906842624)
      = 287729976193115 / 281474976710656"
    by code_simp
  have t: "off_target (currentRatio ?a)"
    unfolding cr off_target_def js_ratio.case targetRatio_val d tolerance_val by simp
  have g: "above_target (currentRatio ?a)"
    unfolding cr above_target_def js_ratio.case targetRatio_val by simp
  have n: "Math_round (fl (2800 / targetRatio)) = 1575" by code_simp
  have x: "Math_round (fl (fl 0 / 2)) = 0" by code_simp
  have y: "Math_round (fl (fl 575 / 2)) = 288" by code_simp
  show ?thesis
    using ensure_wider [OF t g] by (simp add: n x y canvas_dimension_def)
qed

text \<open>A canvas of one pixel: the nearest whole width to 16/9 is 2.\<close>

lemma ensure_example_pixel:
  "ensure_16_9 \<lparr>width = 1, height = 1\<rparr> =
     \<lparr>finalCanvas = \<lparr>width = 2, height = 1\<rparr>, drawImage_at = Some (1, 0)\<rparr>"
proof -
  let ?a = "\<lparr>width = 1, height = 1\<rparr> :: Canvas"
  have r: "fl 1 = 1" by code_simp
  have cr: "currentRatio ?a = FiniteRatio 1"
    using r by (simp add: currentRatio_def)
  have d: "fl (1 - 2001599834386887 / 1125899906842624) = - (875699927544263 / 1125899906842624)"
    by code_simp
  have t: "off_target (currentRatio ?a)"
    unfolding cr off_target_def js_ratio.case targetRatio_val d tolerance_val by simp
  have g: "\<not> above_target (currentRatio ?a)"
    unfolding cr above_target_def js_ratio.case targetRatio_val by simp
  have n: "Math_round (fl targetRatio) = 2" by code_simp
  have x: "Math_round (fl (fl 1 / 2)) = 1" by code_simp
  have y: "Math_round (fl (fl 0 / 2)) = 0" by code_simp
  show ?thesis
    using ensure_taller [OF t g] by (simp add: n x y canvas_dimension_def)
qed

lemma off_target_two_by_one: "off_target (currentRatio \<lparr>width = 2, height = 1\<rparr>)"
proof -
  let ?a = "\<lparr>width = 2, height = 1\<rparr> :: Canvas"
  have r: "fl 2 = 2" by code_simp
  have cr: "currentRatio ?a = FiniteRatio 2"
    using r by (simp add: currentRatio_def)
  have d: "fl (2 - 2001599834386887 / 1125899906842624) = 250199979298361 / 1125899906842624"
    by code_simp
  show ?thesis
    unfolding cr off_target_def js_ratio.case targetRatio_val d tolerance_val by simp
qed

text \<open>
  A canvas whose exact ratio is at distance 0.01 from 16/9: the rounded difference
  is above the rounded constant 0.01, so the canvas is padded.
\<close>

lemma ensure_example_boundary:
  "ensure_16_9 \<lparr>width = 1609, height = 900\<rparr> =
     \<lparr>finalCanvas = \<lparr>width = 1609, height = 905\<rparr>, drawImage_at = Some (0, 3)\<rparr>"
proof -
  let ?a = "\<lparr>width = 1609, height = 900\<rparr> :: Canvas"
  have r: "fl (1609 / 900) = 8051435333821253 / 4503599627370496" by code_simp
  have cr: "currentRatio ?a = FiniteRatio (8051435333821253 / 4503599627370496)"
    using r by (simp add: currentRatio_def)
  have d: "fl (8051435333821253 / 4503599627370496 - 2001599834386887 / 1125899906842624)
      = 45035996273705 / 4503599627370496"
    by code_simp
  have t: "off_target (currentRatio ?a)"
    unfolding cr off_target_def js_ratio.case targetRatio_val d tolerance_val by simp
  have g: "above_target (currentRatio ?a)"
    unfolding cr above_target_def js_ratio.case targetRatio_val by simp
  have n: "Math_round (fl (1609 / targetRatio)) = 905" by code_simp
  have x: "Math_round (fl (fl 0 / 2)) = 0" by code_simp
  have y: "Math_round (fl (fl 5 / 2)) = 3" by code_simp
  show ?thesis
    using ensure_wider [OF t g] by (simp add: n x y canvas_dimension_def)
qed

text \<open>
  A very tall canvas: the width computed for it is above \<open>2147483647\<close>, the new
  canvas gets the default width 300, and the result is narrower than the source.
\<close>

lemma ensure_example_tall:
  "ensure_16_9 \<lparr>width = 1000, height = 1500000000\<rparr> =
     \<lparr>finalCanvas = \<lparr>width = 300, height = 1500000000\<rparr>,
      drawImage_at = Some (1333332834, 0)\<rparr>"
proof -
  let ?a = "\<lparr>width = 1000, height = 1500000000\<rparr> :: Canvas"
  define r :: rat where "r = of_nat (width ?a) / of_nat (height ?a)"
  have r0: "0 < r" by (simp add: r_def)
  have r1: "r < 1" by (simp add: r_def)
  have cr: "currentRatio ?a = FiniteRatio (fl r)"
    by (simp add: currentRatio_def r_def)
  have t: "off_target (currentRatio ?a)"
  proof (rule ccontr)
    assume "\<not> off_target (currentRatio ?a)"
    then have "\<bar>fl (fl r - targetRatio)\<bar> \<le> fl (1 / 100)"
      by (simp add: cr off_target_def)
    from tolerance_within [OF r0 this] show False by (simp add: r_def)
  qed
  have g: "\<not> above_target (currentRatio ?a)"
  proof
    assume "above_target (currentRatio ?a)"
    then have "targetRatio < fl r" by (simp add: cr above_target_def)
    from ratio_gt_exact [OF r0 this] r1 show False by (simp add: targetRatio_val)
  qed
  define n where "n = Math_round (fl (of_nat (height ?a) * targetRatio))"
  have "\<bar>9 * n - 16 * int (height ?a)\<bar> \<le> 4"
    unfolding n_def by (rule round_width) simp_all
  then have n: "n = 2666666667" by simp
  have x: "Math_round (fl (fl (of_int n - of_nat (width ?a)) / 2)) = (n - int (width ?a) + 1) div 2"
    by (rule offset_val) (simp_all add: n)
  have y: "Math_round (fl (fl (of_int (int (height ?a)) - of_nat (height ?a)) / 2)) =
      (int (height ?a) - int (height ?a) + 1) div 2"
    by (rule offset_val) simp_all
  have k: "canvas_dimension 300 n = 300" "canvas_dimension 150 (int (height ?a)) = height ?a"
    by (simp_all add: n canvas_dimension_def)
  show ?thesis
    unfolding ensure_taller [OF t g] n_def [symmetric] x y k by (simp add: n)
qed

text \<open>
  Claim C5, as amended. For a source canvas of positive width and height (at most
  \<open>2147483647\<close>, the range of a canvas dimension), the block never lowers the
  height. When it does not pad, the canvas is passed through unchanged and its ratio
  is within the tolerance 0.01 of 16/9 (up to \<open>10^-9\<close> of double rounding); every
  ratio within \<open>0.01 - 10^-9\<close> of 16/9 is passed through, while a ratio at exactly
  0.01 from 16/9 may be padded. When it pads a canvas of height at most
  \<open>1207959551\<close>, it keeps one dimension and makes the other the nearest integer to
  its exact 16:9 partner, so neither dimension shrinks and the ratio differs from
  16/9 by at most \<open>8 / (9 * height)\<close>: the effect of rounding to whole pixels, which
  is small for a canvas many pixels high and is not for a canvas of a few pixels
  (one pixel becomes 2 by 1). It draws the source at offsets that are half the
  dimension differences, rounded half up, so the source lies wholly inside the new
  canvas, centred. When it pads a higher canvas, the computed width is above
  \<open>2147483647\<close> and the new canvas gets the default width 300 with the source's
  height, the horizontal offset still being computed from the width that was asked for.
\<close>

theorem export_canvas_16_9:
  assumes "0 < width canvas" and "0 < height canvas"
    and "width canvas \<le> 2147483647" and "height canvas \<le> 2147483647"
  shows "height canvas \<le> height (finalCanvas (ensure_16_9 canvas))
     \<and> (height canvas \<le> 1207959551 \<longrightarrow>
          width canvas \<le> width (finalCanvas (ensure_16_9 canvas)))
     \<and> (case drawImage_at (ensure_16_9 canvas) of
          None \<Rightarrow>
            finalCanvas (ensure_16_9 canvas) = canvas
            \<and> \<bar>of_nat (width canvas) / of_nat (height canvas) - 16 / 9\<bar>
                \<le> (1 / 100 + 1 / 10 ^ 9 :: rat)
        | Some (xOffset, yOffset) \<Rightarrow>
            if height canvas \<le> 1207959551 then
              ((width (finalCanvas (ensure_16_9 canvas)) = width canvas
                \<and> \<bar>16 * int (height (finalCanvas (ensure_16_9 canvas)))
                    - 9 * int (width (finalCanvas (ensure_16_9 canvas)))\<bar> \<le> 8)
               \<or> (height (finalCanvas (ensure_16_9 canvas)) = height canvas
                \<and> \<bar>9 * int (width (finalCanvas (ensure_16_9 canvas)))
                    - 16 * int (height (finalCanvas (ensure_16_9 canvas)))\<bar> \<le> 4))
              \<and> \<bar>of_nat (width (finalCanvas (ensure_16_9 canvas)))
                   / of_nat (height (finalCanvas (ensure_16_9 canvas))) - 16 / 9\<bar>
                  \<le> (8 / (9 * of_nat (height (finalCanvas (ensure_16_9 canvas)))) :: rat)
              \<and> xOffset = (int (width (finalCanvas (ensure_16_9 canvas))) - int (width canvas) + 1) div 2
              \<and> yOffset = (int (height (finalCanvas (ensure_16_9 canvas))) - int (height canvas) + 1) div 2
              \<and> 0 \<le> xOffset
              \<and> xOffset + int (width canvas) \<le> int (width (finalCanvas (ensure_16_9 canvas)))
              \<and> 0 \<le> yOffset
              \<and> yOffset + int (height canvas) \<le> int (height (finalCanvas (ensure_16_9 canvas)))
            else
              finalCanvas (ensure_16_9 canvas) = \<lparr>width = 300, height = height canvas\<rparr>
              \<and> yOffset = 0
              \<and> 2147483648 \<le> int (width canvas) + 2 * xOffset)
     \<and> (\<bar>of_nat (width canvas) / of_nat (height canvas) - 16 / 9\<bar> \<le> (1 / 100 - 1 / 10 ^ 9 :: rat)
          \<longrightarrow> ensure_16_9 canvas = \<lparr>finalCanvas = canvas, drawImage_at = None\<rparr>)"
    (is "_ \<and> _ \<and> ?padded \<and> ?within")
proof -
  define w where "w = width canvas"
  define h where "h = height canvas"
  define r :: rat where "r = of_nat w / of_nat h"
  have lim: "w \<le> 2147483647" "h \<le> 2147483647"
    using assms by (simp_all add: w_def h_def)
  have w: "0 < w" "w < 2 ^ 32" and h: "0 < h" "h < 2 ^ 32"
    using assms by (simp_all add: w_def h_def)
  have iw: "int w \<le> 2147483647" and ih: "int h \<le> 2147483647"
    using lim by linarith+
  have w53: "w < 2 ^ 53" and h53: "h < 2 ^ 53" using w(2) h(2) by simp_all
  have r0: "0 < r" using w(1) h(1) by (simp add: r_def)
  have cr: "currentRatio canvas = FiniteRatio (fl r)"
    using h(1) by (simp add: currentRatio_def r_def w_def h_def)
  have off: "off_target (currentRatio canvas) \<longleftrightarrow> \<bar>fl (fl r - targetRatio)\<bar> > fl (1 / 100)"
    by (simp add: cr off_target_def)
  have above: "above_target (currentRatio canvas) \<longleftrightarrow> fl r > targetRatio"
    by (simp add: cr above_target_def)
  have kw: "canvas_dimension 300 (int w) = w"
    using canvas_dimension_keep [of "int w" 300] iw by simp
  have kh: "canvas_dimension 150 (int h) = h"
    using canvas_dimension_keep [of "int h" 150] ih by simp
  have pass: "ensure_16_9 canvas = \<lparr>finalCanvas = canvas, drawImage_at = None\<rparr>"
    if "\<bar>r - 16 / 9\<bar> \<le> 1 / 100 - 1 / 10 ^ 9"
    using tolerance_pass [OF r0 that] by (intro ensure_pass) (simp add: off)
  then have c4: "?within" by (simp add: r_def w_def h_def)
  show ?thesis
  proof (cases "off_target (currentRatio canvas)")
    case False
    then have t: "\<bar>fl (fl r - targetRatio)\<bar> \<le> fl (1 / 100)" by (simp add: off)
    have c3: "?padded"
      using tolerance_within [OF r0 t]
      by (simp add: ensure_pass [OF False] r_def w_def h_def)
    show ?thesis
      using c3 c4 by (simp add: ensure_pass [OF False])
  next
    case test: True
    show ?thesis
    proof (cases "above_target (currentRatio canvas)")
      case True
      define n where "n = Math_round (fl (of_nat w / targetRatio))"
      have gt: "targetRatio < fl (of_nat w / of_nat h)" using True by (simp add: above r_def)
      have nh: "int h \<le> n"
        unfolding n_def by (rule wider_height_ge [OF w(1) h(1) h53 gt])
      have rnd: "\<bar>16 * n - 9 * int w\<bar> \<le> 8"
        unfolding n_def by (rule round_height [OF w])
      have nlim: "n \<le> 2147483647" using rnd iw by linarith
      have "int h \<le> 1207959551" using nh rnd iw by linarith
      then have hs: "h \<le> 1207959551" by linarith
      have n53: "n < 2 ^ 53" using nlim by simp
      have n0: "0 \<le> n" using nh by simp
      have kn: "canvas_dimension 150 n = nat n"
        using n0 nlim by (rule canvas_dimension_keep)
      have x: "Math_round (fl (fl (of_int (int w) - of_nat w) / 2)) = (int w - int w + 1) div 2"
        using w53 by (intro offset_val) simp_all
      have y: "Math_round (fl (fl (of_int n - of_nat h) / 2)) = (n - int h + 1) div 2"
        using nh n53 by (rule offset_val)
      have e: "ensure_16_9 canvas =
          \<lparr>finalCanvas = \<lparr>width = w, height = nat n\<rparr>,
           drawImage_at = Some ((int w - int w + 1) div 2, (n - int h + 1) div 2)\<rparr>"
        unfolding ensure_wider [OF test True] w_def [symmetric] h_def [symmetric]
          n_def [symmetric] kw kn x y ..
      have c: "0 \<le> (n - int h + 1) div 2" "(n - int h + 1) div 2 + int h \<le> n"
        using half_up_centered [of "n - int h"] nh by simp_all
      have nn: "int (nat n) = n" using n0 by simp
      have hn: "h \<le> nat n" using nh by simp
      have fc: "finalCanvas (ensure_16_9 canvas) = \<lparr>width = w, height = nat n\<rparr>"
        and da: "drawImage_at (ensure_16_9 canvas) =
            Some ((int w - int w + 1) div 2, (n - int h + 1) div 2)"
        by (simp_all add: e)
      have c1: "height canvas \<le> height (finalCanvas (ensure_16_9 canvas))"
        and c2: "height canvas \<le> 1207959551 \<longrightarrow>
            width canvas \<le> width (finalCanvas (ensure_16_9 canvas))"
        using hn by (simp_all add: fc w_def h_def)
      have "0 < nat n" using hn h(1) by simp
      moreover have "\<bar>16 * int (nat n) - 9 * int w\<bar> \<le> 8" using rnd n0 by simp
      ultimately have ratio: "\<bar>of_nat w / of_nat (nat n) - 16 / 9\<bar>
          \<le> (8 / (9 * of_nat (nat n)) :: rat)"
        by (rule ratio_from_rounding)
      have c3: "?padded"
        unfolding da fc using rnd c n0 ratio hs
        by (simp add: w_def [symmetric] h_def [symmetric])
      show ?thesis
        using c1 c2 c3 c4 by blast
    next
      case False
      have ne: "fl r \<noteq> targetRatio"
      proof
        assume "fl r = targetRatio"
        then have "fl (fl r - targetRatio) = 0" by (simp add: fl_def)
        with test tolerance_pos show False by (simp add: off)
      qed
      with False have lt: "fl (of_nat w / of_nat h) < targetRatio" by (simp add: above r_def)
      define n where "n = Math_round (fl (of_nat h * targetRatio))"
      have nw: "int w \<le> n"
        unfolding n_def by (rule taller_width_ge [OF w(1) h(1) w53 lt])
      have rnd: "\<bar>9 * n - 16 * int h\<bar> \<le> 4"
        unfolding n_def by (rule round_width [OF h])
      have n32: "n < 4294967296" using rnd ih by linarith
      then have n53: "n < 2 ^ 53" by simp
      have n0: "0 \<le> n" using nw by simp
      have y: "Math_round (fl (fl (of_int (int h) - of_nat h) / 2)) = (int h - int h + 1) div 2"
        using h53 by (intro offset_val) simp_all
      have x: "Math_round (fl (fl (of_int n - of_nat w) / 2)) = (n - int w + 1) div 2"
        using nw n53 by (rule offset_val)
      have e0: "ensure_16_9 canvas =
          \<lparr>finalCanvas = \<lparr>width = canvas_dimension 300 n, height = h\<rparr>,
           drawImage_at = Some ((n - int w + 1) div 2, (int h - int h + 1) div 2)\<rparr>"
        unfolding ensure_taller [OF test False] w_def [symmetric] h_def [symmetric]
          n_def [symmetric] kh x y ..
      show ?thesis
      proof (cases "h \<le> 1207959551")
        case hs: True
        then have "int h \<le> 1207959551" by linarith
        with rnd have nlim: "n \<le> 2147483647" by linarith
        have kn: "canvas_dimension 300 n = nat n"
          using n0 nlim by (rule canvas_dimension_keep)
        have c: "0 \<le> (n - int w + 1) div 2" "(n - int w + 1) div 2 + int w \<le> n"
          using half_up_centered [of "n - int w"] nw by simp_all
        have nn: "int (nat n) = n" using n0 by simp
        have wn: "w \<le> nat n" using nw by simp
        have fc: "finalCanvas (ensure_16_9 canvas) = \<lparr>width = nat n, height = h\<rparr>"
          and da: "drawImage_at (ensure_16_9 canvas) =
              Some ((n - int w + 1) div 2, (int h - int h + 1) div 2)"
          by (simp_all add: e0 kn)
        have c1: "height canvas \<le> height (finalCanvas (ensure_16_9 canvas))"
          and c2: "height canvas \<le> 1207959551 \<longrightarrow>
              width canvas \<le> width (finalCanvas (ensure_16_9 canvas))"
          using wn by (simp_all add: fc w_def h_def)
        have "\<bar>16 * int h - 9 * int (nat n)\<bar> \<le> 8" using rnd n0 by simp
        with h(1) have ratio: "\<bar>of_nat (nat n) / of_nat h - 16 / 9\<bar>
            \<le> (8 / (9 * of_nat h) :: rat)"
          by (rule ratio_from_rounding)
        have c3: "?padded"
          unfolding da fc using rnd c n0 ratio hs
          by (simp add: w_def [symmetric] h_def [symmetric])
        show ?thesis
          using c1 c2 c3 c4 by blast
      next
        case hb: False
        then have "1207959552 \<le> int h" by linarith
        with rnd have nbig: "2147483647 < n" by linarith
        have kn: "canvas_dimension 300 n = 300"
          using nbig n32 by (rule canvas_dimension_fallback)
        have fc: "finalCanvas (ensure_16_9 canvas) = \<lparr>width = 300, height = h\<rparr>"
          and da: "drawImage_at (ensure_16_9 canvas) =
              Some ((n - int w + 1) div 2, (int h - int h + 1) div 2)"
          by (simp_all add: e0 kn)
        have xo: "2147483648 \<le> int w + 2 * ((n - int w + 1) div 2)"
          using nbig by linarith
        have c1: "height canvas \<le> height (finalCanvas (ensure_16_9 canvas))"
          and c2: "height canvas \<le> 1207959551 \<longrightarrow>
              width canvas \<le> width (finalCanvas (ensure_16_9 canvas))"
          using hb by (simp_all add: fc w_def h_def)
        have c3: "?padded"
          unfolding da fc using xo hb
          by (simp add: w_def [symmetric] h_def [symmetric])
        show ?thesis
          using c1 c2 c3 c4 by blast
      qed
    qed
  qed
qed


theorem export_canvas_16_9_witness:
  "finalCanvas (ensure_16_9 \<lparr>width = 2800, height = 1000\<rparr>) = \<lparr>width = 2800, height = 1575\<rparr>
   \<and> \<bar>16 * int (height (finalCanvas (ensure_16_9 \<lparr>width = 2800, height = 1000\<rparr>)))
        - 9 * int (width (finalCanvas (ensure_16_9 \<lparr>width = 2800, height = 1000\<rparr>)))\<bar> \<le> 8
   \<and> (1000::nat) \<le> height (finalCanvas (ensure_16_9 \<lparr>width = 2800, height = 1000\<rparr>))
   \<and> (1000::nat) \<le> width (finalCanvas (ensure_16_9 \<lparr>width = 1000, height = 2000\<rparr>))
   \<and> ensure_16_9 \<lparr>width = 1600, height = 900\<rparr> =
       \<lparr>finalCanvas = \<lparr>width = 1600, height = 900\<rparr>, drawImage_at = None\<rparr>"
proof -
  let ?a = "\<lparr>width = 2800, height = 1000\<rparr> :: Canvas"
  let ?b = "\<lparr>width = 1000, height = 2000\<rparr> :: Canvas"
  let ?c = "\<lparr>width = 1600, height = 900\<rparr> :: Canvas"
  have ha: "0 < width ?a" "0 < height ?a" "width ?a \<le> 2147483647" "height ?a \<le> 2147483647"
    by simp_all
  have hb: "0 < width ?b" "0 < height ?b" "width ?b \<le> 2147483647" "height ?b \<le> 2147483647"
    by simp_all
  have hc: "0 < width ?c" "0 < height ?c" "width ?c \<le> 2147483647" "height ?c \<le> 2147483647"
    by simp_all
  have rc: "\<bar>of_nat (width ?c) / of_nat (height ?c) - 16 / 9\<bar> \<le> (1 / 100 - 1 / 10 ^ 9 :: rat)"
    by simp
  note wa = export_canvas_16_9 [OF ha]
  note wb = export_canvas_16_9 [OF hb]
  note wc = export_canvas_16_9 [OF hc]
  have 1: "finalCanvas (ensure_16_9 ?a) = \<lparr>width = 2800, height = 1575\<rparr>"
    by (simp add: ensure_example_wide)
  have 2: "\<bar>16 * int (height (finalCanvas (ensure_16_9 ?a)))
        - 9 * int (width (finalCanvas (ensure_16_9 ?a)))\<bar> \<le> 8"
    using wa by (simp add: ensure_example_wide)
  have 3: "(1000::nat) \<le> height (finalCanvas (ensure_16_9 ?a))"
    using wa by simp
  have 4: "(1000::nat) \<le> width (finalCanvas (ensure_16_9 ?b))"
    using wb by simp
  have 5: "ensure_16_9 ?c = \<lparr>finalCanvas = ?c, drawImage_at = None\<rparr>"
    using wc rc by blast
  show ?thesis using 1 2 3 4 5 by blast
qed

theorem export_canvas_16_9_counterexample:
  "ensure_16_9 \<lparr>width = 1, height = 1\<rparr> =
     \<lparr>finalCanvas = \<lparr>width = 2, height = 1\<rparr>, drawImage_at = Some (1, 0)\<rparr>
   \<and> off_target (currentRatio \<lparr>width = 2, height = 1\<rparr>)
   \<and> \<bar>2 / 1 - 16 / 9\<bar> = (2 / 9 :: rat)
   \<and> \<bar>1609 / 900 - 16 / 9\<bar> = (1 / 100 :: rat)
   \<and> ensure_16_9 \<lparr>width = 1609, height = 900\<rparr> =
     \<lparr>finalCanvas = \<lparr>width = 1609, height = 905\<rparr>, drawImage_at = Some (0, 3)\<rparr>
   \<and> ensure_16_9 \<lparr>width = 1000, height = 1500000000\<rparr> =
     \<lparr>finalCanvas = \<lparr>width = 300, height = 1500000000\<rparr>,
      drawImage_at = Some (1333332834, 0)\<rparr>"
proof -
  have "\<bar>2 / 1 - 16 / 9\<bar> = (2 / 9 :: rat)" and "\<bar>1609 / 900 - 16 / 9\<bar> = (1 / 100 :: rat)"
    by simp_all
  then show ?thesis
    using ensure_example_pixel off_target_two_by_one ensure_example_boundary ensure_example_tall
    by blast
qed

text \<open>
  Claim C6. Both download handlers end, on every path, with their button enabled and
  its label written back by the finally block. An exception in the try block (a
  rejected capture, a failed encoding, a failed PDF step) adds exactly one alert and no
  download; without one there is no alert and one download. html2canvas is called
  exactly once per attempt: nothing is retried.
\<close>

theorem export_failure_handling:
  "\<not> downloadImageBtn_disabled (downloadAsImage env sectionName st)
   \<and> downloadImageBtn_content (downloadAsImage env sectionName st) = image_button_label
   \<and> html2canvas_calls (downloadAsImage env sectionName st) = html2canvas_calls st + 1
   \<and> (image_export_fails env \<longrightarrow>
        export_alerts (downloadAsImage env sectionName st) =
          export_alerts st @ [ascii ''Failed to generate image. Please try again.'']
        \<and> downloads (downloadAsImage env sectionName st) = downloads st)
   \<and> (\<not> image_export_fails env \<longrightarrow>
        export_alerts (downloadAsImage env sectionName st) = export_alerts st
        \<and> length (downloads (downloadAsImage env sectionName st)) = length (downloads st) + 1)
   \<and> \<not> downloadPdfBtn_disabled (downloadAsPdf env sectionName st)
   \<and> downloadPdfBtn_content (downloadAsPdf env sectionName st) = pdf_button_label
   \<and> html2canvas_calls (downloadAsPdf env sectionName st) = html2canvas_calls st + 1
   \<and> (pdf_export_fails env \<longrightarrow>
        export_alerts (downloadAsPdf env sectionName st) =
          export_alerts st @ [ascii ''Failed to generate PDF. Please try again.'']
        \<and> downloads (downloadAsPdf env sectionName st) = downloads st)
   \<and> (\<not> pdf_export_fails env \<longrightarrow>
        export_alerts (downloadAsPdf env sectionName st) = export_alerts st
        \<and> length (downloads (downloadAsPdf env sectionName st)) = length (downloads st) + 1)"
proof -
  have img: "\<not> downloadImageBtn_disabled (downloadAsImage env sectionName st)
      \<and> downloadImageBtn_content (downloadAsImage env sectionName st) = image_button_label
      \<and> html2canvas_calls (downloadAsImage env sectionName st) = html2canvas_calls st + 1"
    by (simp add: downloadAsImage_def Let_def image_catch_def split: sum.splits)
  have img_fail: "export_alerts (downloadAsImage env sectionName st) =
          export_alerts st @ [ascii ''Failed to generate image. Please try again.'']
        \<and> downloads (downloadAsImage env sectionName st) = downloads st"
    if "image_export_fails env"
    using that
    by (auto simp: downloadAsImage_def Let_def image_catch_def image_export_fails_def
        split: sum.splits)
  have img_ok: "export_alerts (downloadAsImage env sectionName st) = export_alerts st
        \<and> length (downloads (downloadAsImage env sectionName st)) = length (downloads st) + 1"
    if "\<not> image_export_fails env"
    using that
    by (auto simp: downloadAsImage_def Let_def image_catch_def image_export_fails_def
        split: sum.splits)
  have pdf: "\<not> downloadPdfBtn_disabled (downloadAsPdf env sectionName st)
      \<and> downloadPdfBtn_content (downloadAsPdf env sectionName st) = pdf_button_label
      \<and> html2canvas_calls (downloadAsPdf env sectionName st) = html2canvas_calls st + 1"
    by (simp add: downloadAsPdf_def Let_def pdf_catch_def split: sum.splits option.splits)
  have pdf_fail: "export_alerts (downloadAsPdf env sectionName st) =
          export_alerts st @ [ascii ''Failed to generate PDF. Please try again.'']
        \<and> downloads (downloadAsPdf env sectionName st) = downloads st"
    if "pdf_export_fails env"
    using that
    by (auto simp: downloadAsPdf_def Let_def pdf_catch_def pdf_export_fails_def
        image_export_fails_def split: sum.splits option.splits)
  have pdf_ok: "export_alerts (downloadAsPdf env sectionName st) = export_alerts st
        \<and> length (downloads (downloadAsPdf env sectionName st)) = length (downloads st) + 1"
    if "\<not> pdf_export_fails env"
    using that
    by (auto simp: downloadAsPdf_def Let_def pdf_catch_def pdf_export_fails_def
        image_export_fails_def split: sum.splits option.splits)
  show ?thesis
    using img img_fail img_ok pdf pdf_fail pdf_ok by blast
qed

theorem export_failure_handling_witness:
  "export_alerts (downloadAsImage env_capture_fails (ascii ''Section_3'') example_export_state) =
      [ascii ''Failed to generate image. Please try again.'']
   \<and> \<not> downloadImageBtn_disabled
        (downloadAsImage env_capture_fails (ascii ''Section_3'') example_export_state)
   \<and> downloadImageBtn_content
        (downloadAsImage env_capture_fails (ascii ''Section_3'') example_export_state) =
      downloadImageBtn_content example_export_state
   \<and> export_alerts (downloadAsPdf env_pdf_fails (ascii ''Section_3'') example_export_state) =
      [ascii ''Failed to generate PDF. Please try again.'']
   \<and> \<not> downloadPdfBtn_disabled (downloadAsPdf env_pdf_fails (ascii ''Section_3'') example_export_state)
   \<and> export_alerts (downloadAsImage env_ok (ascii ''Section_3'') example_export_state) = []
   \<and> length (downloads (downloadAsPdf env_ok (ascii ''Section_3'') example_export_state)) = 1"
proof -
  have f1: "image_export_fails env_capture_fails"
    by (simp add: image_export_fails_def env_capture_fails_def)
  have f2: "pdf_export_fails env_pdf_fails"
    by (simp add: pdf_export_fails_def env_pdf_fails_def)
  have f3: "\<not> image_export_fails env_ok" "\<not> pdf_export_fails env_ok"
    by (simp_all add: pdf_export_fails_def image_export_fails_def env_ok_def)
  have s: "export_alerts example_export_state = []" "downloads example_export_state = []"
    "downloadImageBtn_content example_export_state = image_button_label"
    by (simp_all add: example_export_state_def)
  show ?thesis
    using export_failure_handling [of env_capture_fails "ascii ''Section_3''" example_export_state]
      export_failure_handling [of env_pdf_fails "ascii ''Section_3''" example_export_state]
      export_failure_handling [of env_ok "ascii ''Section_3''" example_export_state]
      f1 f2 f3
    by (simp add: s)
qed


end
